theory Spec2Isabelle
  imports Complex_Main "HOL-Library.Monad_Syntax"
begin

section \<open>Python primitives used by the board parser\<close>

text \<open>
  The viewer is a Python program. An exception is a value: \<open>None\<close> where the source
  catches it at once, an \<open>error\<close> where it propagates. A string is a list of characters
  with code points below 256.

  Floats are idealised as the reals: every numeric attribute that Python reads with
  \<open>float(...)\<close> becomes a \<open>real\<close>, and \<open>math.cos\<close>, \<open>math.sin\<close> and \<open>math.radians\<close>
  become \<open>cos\<close>, \<open>sin\<close> and multiplication by \<open>pi / 180\<close>. The model and the code agree
  up to rounding on documents whose numeric attributes are decimal literals in the range
  of a double, and differ in three ways:
  \<^item> a literal denotes its exact decimal value and arithmetic is exact, where \<open>float\<close>
    rounds the literal to the nearest double and every operation rounds its result
    (\<open>0.1 + 0.2\<close> is \<open>0.30000000000000004\<close> in the code and \<open>3 / 10\<close> here), so an equation
    between coordinates that is proved here holds in the code only up to rounding;
  \<^item> the literals \<open>inf\<close>, \<open>infinity\<close> and \<open>nan\<close>, which \<open>float\<close> accepts in any case and
    with a sign, have no real value: \<open>py_float\<close> gives \<open>None\<close> for them, as for a literal
    that \<open>float\<close> rejects, where the code goes on with the non-finite value;
  \<^item> a literal beyond the range of a double, such as \<open>1e400\<close>, which \<open>float\<close> reads as
    \<open>inf\<close>, keeps its decimal value here.
\<close>

datatype error = RuntimeError string | ValueError

text \<open>
  The blanks that \<open>float\<close> and \<open>int\<close> ignore around a literal: the ASCII blanks
  \<open>\t \n \v \f \r\<close> and the space, and the two other characters below 256 that
  \<open>str.isspace\<close> holds for and that are not ASCII, \<open>U+0085\<close> and \<open>U+00A0\<close>. The separators
  \<open>U+001C\<close> to \<open>U+001F\<close> are ASCII and not among the blanks of the converters, which
  reject a literal that has one.
\<close>

definition is_space :: "char \<Rightarrow> bool" where
  "is_space c = (c \<in> set [CHR 0x09, CHR 0x0A, CHR 0x0B, CHR 0x0C, CHR 0x0D, CHR 0x20,
                           CHR 0x85, CHR 0xA0])"

definition py_strip :: "string \<Rightarrow> string" where
  "py_strip s = rev (dropWhile is_space (rev (dropWhile is_space s)))"

text \<open>\<open>s.lstrip(chars)\<close>: drop every leading character that occurs in \<open>chars\<close>.\<close>

definition lstrip :: "string \<Rightarrow> string \<Rightarrow> string" where
  "lstrip chars s = dropWhile (\<lambda>c. c \<in> set chars) s"

definition digit_val :: "char \<Rightarrow> nat option" where
  "digit_val c =
     map_of [(CHR ''0'', 0), (CHR ''1'', 1), (CHR ''2'', 2), (CHR ''3'', 3), (CHR ''4'', 4),
             (CHR ''5'', 5), (CHR ''6'', 6), (CHR ''7'', 7), (CHR ''8'', 8), (CHR ''9'', 9)] c"

definition is_digit :: "char \<Rightarrow> bool" where
  "is_digit c = (digit_val c \<noteq> None)"

text \<open>
  Python's \<open>digitpart\<close>: a non-empty run of decimal digits in which single underscores may
  separate two digits.
\<close>

fun digitpart :: "string \<Rightarrow> bool" where
  "digitpart [] = False"
| "digitpart [c] = is_digit c"
| "digitpart (c # d # cs) =
     (is_digit c \<and> (if d = CHR ''_'' then digitpart cs else digitpart (d # cs)))"

definition digits_val :: "string \<Rightarrow> nat" where
  "digits_val s = foldl (\<lambda>n c. case digit_val c of Some d \<Rightarrow> 10 * n + d | None \<Rightarrow> n) 0 s"

definition num_digits :: "string \<Rightarrow> nat" where
  "num_digits s = length (filter is_digit s)"

text \<open>An optional sign in front of the rest of a literal.\<close>

definition split_sign :: "string \<Rightarrow> bool \<times> string" where
  "split_sign s =
     (case s of
        [] \<Rightarrow> (False, [])
      | c # r \<Rightarrow> if c = CHR ''+'' then (False, r)
                 else if c = CHR ''-'' then (True, r) else (False, s))"

text \<open>\<open>int(s)\<close> in base ten; \<open>None\<close> is the \<open>ValueError\<close>.\<close>

definition py_int :: "string \<Rightarrow> int option" where
  "py_int s =
     (let (neg, body) = split_sign (py_strip s)
      in if digitpart body
         then Some (if neg then - int (digits_val body) else int (digits_val body))
         else None)"

text \<open>
  The mantissa of a float literal: \<open>digitpart\<close>, \<open>digitpart "."\<close>,
  \<open>[digitpart] "." digitpart\<close>.
\<close>

definition mantissa :: "string \<Rightarrow> real option" where
  "mantissa m =
     (let ip = takeWhile (\<lambda>c. c \<noteq> CHR ''.'') m;
          rest = dropWhile (\<lambda>c. c \<noteq> CHR ''.'') m
      in if rest = [] then (if digitpart ip then Some (real (digits_val ip)) else None)
         else let fp = tl rest
              in if fp = [] then (if digitpart ip then Some (real (digits_val ip)) else None)
                 else if digitpart fp \<and> (ip = [] \<or> digitpart ip)
                 then Some (real (digits_val ip) + real (digits_val fp) / 10 ^ num_digits fp)
                 else None)"

definition is_exp_mark :: "char \<Rightarrow> bool" where
  "is_exp_mark c = (c = CHR ''e'' \<or> c = CHR ''E'')"

definition exponent :: "string \<Rightarrow> int option" where
  "exponent r =
     (if r = [] then Some 0
      else let (neg, body) = split_sign (tl r)
           in if digitpart body
              then Some (if neg then - int (digits_val body) else int (digits_val body))
              else None)"

definition scale10 :: "real \<Rightarrow> int \<Rightarrow> real" where
  "scale10 m e = (if 0 \<le> e then m * 10 ^ nat e else m / 10 ^ nat (- e))"

text \<open>
  \<open>float(s)\<close> on a decimal literal: blanks around it, a sign, the mantissa and an optional
  exponent. \<open>None\<close> is the \<open>ValueError\<close>, and also the answer to \<open>inf\<close>, \<open>infinity\<close> and
  \<open>nan\<close>.
\<close>

definition py_float :: "string \<Rightarrow> real option" where
  "py_float s =
     (let (neg, body) = split_sign (py_strip s);
          m = takeWhile (\<lambda>c. \<not> is_exp_mark c) body;
          r = dropWhile (\<lambda>c. \<not> is_exp_mark c) body
      in case mantissa m of
           None \<Rightarrow> None
         | Some v \<Rightarrow>
             (case exponent r of
                None \<Rightarrow> None
              | Some e \<Rightarrow> Some (if neg then - scale10 v e else scale10 v e)))"

definition radians :: "real \<Rightarrow> real" where
  "radians d = d * pi / 180"

section \<open>The XML tree handed to the parser\<close>

text \<open>
  An \<open>ElementTree\<close> element: tag, attributes, text and children. \<open>find\<close> returns the first
  child with a tag, \<open>findall\<close> all of them in document order, \<open>get\<close> an attribute or the
  default.
\<close>

datatype xml = XmlElement (el_tag: string) (el_attrib: "(string \<times> string) list")
                       (el_text: "string option") (el_children: "xml list")

definition find_child :: "xml \<Rightarrow> string \<Rightarrow> xml option" where
  "find_child e t = List.find (\<lambda>c. el_tag c = t) (el_children e)"

definition findall :: "xml \<Rightarrow> string \<Rightarrow> xml list" where
  "findall e t = filter (\<lambda>c. el_tag c = t) (el_children e)"

definition get :: "xml \<Rightarrow> string \<Rightarrow> string \<Rightarrow> string" where
  "get e k d = (case map_of (el_attrib e) k of Some v \<Rightarrow> v | None \<Rightarrow> d)"

text \<open>\<open>e.get(k)\<close> without a default: \<open>None\<close> when the attribute is absent.\<close>

definition get_opt :: "xml \<Rightarrow> string \<Rightarrow> string option" where
  "get_opt e k = map_of (el_attrib e) k"

section \<open>Data structures\<close>

record Layer =
  l_number :: int
  l_name :: string
  l_color :: int
  l_visible :: bool
  l_active :: bool

record Wire =
  w_x1 :: real
  w_y1 :: real
  w_x2 :: real
  w_y2 :: real
  w_width :: real
  w_layer :: int
  w_kind :: string
  w_net :: string

record Via =
  v_x :: real
  v_y :: real
  v_drill :: real
  v_diameter :: real
  v_extent :: string
  v_net :: string

record Pad =
  p_name :: string
  p_x :: real
  p_y :: real
  p_drill :: real
  p_diameter :: real
  p_dx :: real
  p_dy :: real
  p_shape :: string
  p_layer :: int
  p_rot :: real

record SMD =
  s_name :: string
  s_x :: real
  s_y :: real
  s_dx :: real
  s_dy :: real
  s_layer :: int
  s_roundness :: real
  s_rot :: real

record Circle =
  c_x :: real
  c_y :: real
  c_radius :: real
  c_width :: real
  c_layer :: int

record Rect =
  r_x1 :: real
  r_y1 :: real
  r_x2 :: real
  r_y2 :: real
  r_layer :: int
  r_rot :: real

record Element =
  e_name :: string
  e_value :: string
  e_library :: string
  e_package :: string
  e_x :: real
  e_y :: real
  e_rot :: string

record Polygon =
  poly_vertices :: "(real \<times> real) list"
  poly_layer :: int
  poly_width :: real
  poly_net :: string
  poly_fill :: bool
  poly_is_outline :: bool

record Text =
  t_x :: real
  t_y :: real
  t_text :: string
  t_layer :: int
  t_size :: real
  t_rot :: real

text \<open>The shapes a package holds: \<open>Union[Wire, Pad, SMD, Circle, Rect, Polygon]\<close>.\<close>

datatype shape =
  SWire Wire | SPad Pad | SSMD SMD | SCircle Circle | SRect Rect | SPolygon Polygon

record Board =
  layers :: "int \<rightharpoonup> Layer"
  wires :: "Wire list"
  vias :: "Via list"
  pads :: "Pad list"
  smds :: "SMD list"
  elements :: "Element list"
  polygons :: "Polygon list"
  texts :: "Text list"
  packages :: "string \<rightharpoonup> shape list"
  bounds :: "(real \<times> real \<times> real \<times> real) option"

definition empty_board :: Board where
  "empty_board = \<lparr>layers = Map.empty, wires = [], vias = [], pads = [], smds = [],
     elements = [], polygons = [], texts = [], packages = Map.empty, bounds = None\<rparr>"

section \<open>EagleParser: one element at a time\<close>

text \<open>
  Each \<open>_add_..._from_xml\<close> runs inside \<open>try ... except Exception: pass\<close>: the record is
  built in the option monad, where the first failing conversion gives \<open>None\<close>, and the
  board is changed only when the record was built.
\<close>

definition wire_of_xml :: "xml \<Rightarrow> string \<Rightarrow> Wire option" where
  "wire_of_xml w_el kind = do {
     x1 \<leftarrow> py_float (get w_el ''x1'' ''0'');
     y1 \<leftarrow> py_float (get w_el ''y1'' ''0'');
     x2 \<leftarrow> py_float (get w_el ''x2'' ''0'');
     y2 \<leftarrow> py_float (get w_el ''y2'' ''0'');
     width \<leftarrow> py_float (get w_el ''width'' ''0.1'');
     layer \<leftarrow> py_int (get w_el ''layer'' ''0'');
     Some \<lparr>w_x1 = x1, w_y1 = y1, w_x2 = x2, w_y2 = y2, w_width = width,
           w_layer = layer, w_kind = kind, w_net = ''''\<rparr> }"

definition add_wire_from_xml :: "xml \<Rightarrow> string \<Rightarrow> Board \<Rightarrow> Wire option \<times> Board" where
  "add_wire_from_xml w_el kind b =
     (case wire_of_xml w_el kind of
        None \<Rightarrow> (None, b)
      | Some w \<Rightarrow> (Some w, b\<lparr>wires := wires b @ [w]\<rparr>))"

definition via_of_xml :: "xml \<Rightarrow> string \<Rightarrow> Via option" where
  "via_of_xml v_el net = do {
     x \<leftarrow> py_float (get v_el ''x'' ''0'');
     y \<leftarrow> py_float (get v_el ''y'' ''0'');
     drill \<leftarrow> py_float (get v_el ''drill'' ''0'');
     diameter \<leftarrow> (case get_opt v_el ''diameter'' of
                    None \<Rightarrow> Some 0
                  | Some d \<Rightarrow> if d = [] then Some 0 else py_float (get v_el ''diameter'' ''0''));
     Some \<lparr>v_x = x, v_y = y, v_drill = drill, v_diameter = diameter,
           v_extent = get v_el ''extent'' '''', v_net = net\<rparr> }"

definition add_via_from_xml :: "xml \<Rightarrow> string \<Rightarrow> Board \<Rightarrow> Board" where
  "add_via_from_xml v_el net b =
     (case via_of_xml v_el net of None \<Rightarrow> b | Some v \<Rightarrow> b\<lparr>vias := vias b @ [v]\<rparr>)"

text \<open>
  The rotation of a shape: \<open>float(rot_str.lstrip('R').lstrip('M'))\<close>, the leading \<open>R\<close>s
  first and the leading \<open>M\<close>s after them.
\<close>

definition shape_rot_of_str :: "string \<Rightarrow> real option" where
  "shape_rot_of_str rot_str = py_float (lstrip ''M'' (lstrip ''R'' rot_str))"

definition pad_of_xml :: "xml \<Rightarrow> Pad option" where
  "pad_of_xml p_el = do {
     x \<leftarrow> py_float (get p_el ''x'' ''0'');
     y \<leftarrow> py_float (get p_el ''y'' ''0'');
     drill \<leftarrow> py_float (get p_el ''drill'' ''0'');
     diameter \<leftarrow> py_float (get p_el ''diameter'' ''0'');
     layer \<leftarrow> py_int (get p_el ''layer'' ''0'');
     rot \<leftarrow> shape_rot_of_str (get p_el ''rot'' ''R0'');
     Some (let shp = get p_el ''shape'' ''round'' in
       \<lparr>p_name = get p_el ''name'' '''', p_x = x, p_y = y, p_drill = drill,
        p_diameter = diameter,
        p_dx = (if shp \<noteq> ''round'' then diameter else 0),
        p_dy = (if shp \<noteq> ''round'' then diameter else 0),
        p_shape = shp, p_layer = layer, p_rot = rot\<rparr>) }"

definition add_pad_from_xml :: "xml \<Rightarrow> Board \<Rightarrow> Pad option \<times> Board" where
  "add_pad_from_xml p_el b =
     (case pad_of_xml p_el of
        None \<Rightarrow> (None, b)
      | Some p \<Rightarrow> (Some p, b\<lparr>pads := pads b @ [p]\<rparr>))"

definition smd_of_xml :: "xml \<Rightarrow> SMD option" where
  "smd_of_xml s_el = do {
     x \<leftarrow> py_float (get s_el ''x'' ''0'');
     y \<leftarrow> py_float (get s_el ''y'' ''0'');
     dx \<leftarrow> py_float (get s_el ''dx'' ''0'');
     dy \<leftarrow> py_float (get s_el ''dy'' ''0'');
     layer \<leftarrow> py_int (get s_el ''layer'' ''0'');
     roundness \<leftarrow> py_float (get s_el ''roundness'' ''0'');
     rot \<leftarrow> shape_rot_of_str (get s_el ''rot'' ''R0'');
     Some \<lparr>s_name = get s_el ''name'' '''', s_x = x, s_y = y, s_dx = dx, s_dy = dy,
           s_layer = layer, s_roundness = roundness, s_rot = rot\<rparr> }"

definition add_smd_from_xml :: "xml \<Rightarrow> Board \<Rightarrow> SMD option \<times> Board" where
  "add_smd_from_xml s_el b =
     (case smd_of_xml s_el of
        None \<Rightarrow> (None, b)
      | Some s \<Rightarrow> (Some s, b\<lparr>smds := smds b @ [s]\<rparr>))"

text \<open>Circles and rectangles are returned only: the board has no list for them.\<close>

definition add_circle_from_xml :: "xml \<Rightarrow> Circle option" where
  "add_circle_from_xml c_el = do {
     x \<leftarrow> py_float (get c_el ''x'' ''0'');
     y \<leftarrow> py_float (get c_el ''y'' ''0'');
     radius \<leftarrow> py_float (get c_el ''radius'' ''0'');
     width \<leftarrow> py_float (get c_el ''width'' ''0.1'');
     layer \<leftarrow> py_int (get c_el ''layer'' ''0'');
     Some \<lparr>c_x = x, c_y = y, c_radius = radius, c_width = width, c_layer = layer\<rparr> }"

definition add_rect_from_xml :: "xml \<Rightarrow> Rect option" where
  "add_rect_from_xml r_el = do {
     x1 \<leftarrow> py_float (get r_el ''x1'' ''0'');
     y1 \<leftarrow> py_float (get r_el ''y1'' ''0'');
     x2 \<leftarrow> py_float (get r_el ''x2'' ''0'');
     y2 \<leftarrow> py_float (get r_el ''y2'' ''0'');
     layer \<leftarrow> py_int (get r_el ''layer'' ''0'');
     rot \<leftarrow> shape_rot_of_str (get r_el ''rot'' ''R0'');
     Some \<lparr>r_x1 = x1, r_y1 = y1, r_x2 = x2, r_y2 = y2, r_layer = layer, r_rot = rot\<rparr> }"

text \<open>The vertex loop of a polygon: one bad coordinate drops the whole polygon.\<close>

fun vertices_of_xml :: "xml list \<Rightarrow> (real \<times> real) list option" where
  "vertices_of_xml [] = Some []"
| "vertices_of_xml (v # vs) = do {
     vx \<leftarrow> py_float (get v ''x'' ''0'');
     vy \<leftarrow> py_float (get v ''y'' ''0'');
     rest \<leftarrow> vertices_of_xml vs;
     Some ((vx, vy) # rest) }"

definition polygon_of_xml :: "xml \<Rightarrow> string \<Rightarrow> Polygon option" where
  "polygon_of_xml p_el net = do {
     layer \<leftarrow> py_int (get p_el ''layer'' ''0'');
     width \<leftarrow> py_float (get p_el ''width'' ''0.1'');
     verts \<leftarrow> vertices_of_xml (findall p_el ''vertex'');
     (if length verts > 2
      then (let is_outline = (layer = 20);
                fill = (net \<noteq> '''' \<and> \<not> is_outline)
            in Some \<lparr>poly_vertices = verts, poly_layer = layer, poly_width = width,
                      poly_net = net, poly_fill = fill, poly_is_outline = is_outline\<rparr>)
      else None) }"

definition add_polygon_from_xml ::
  "xml \<Rightarrow> string \<Rightarrow> bool \<Rightarrow> Board \<Rightarrow> Polygon option \<times> Board" where
  "add_polygon_from_xml p_el net in_package b =
     (case polygon_of_xml p_el net of
        None \<Rightarrow> (None, b)
      | Some p \<Rightarrow> if in_package then (Some p, b)
                  else (Some p, b\<lparr>polygons := polygons b @ [p]\<rparr>))"

definition text_of_xml :: "xml \<Rightarrow> Text option" where
  "text_of_xml t_el = do {
     x \<leftarrow> py_float (get t_el ''x'' ''0'');
     y \<leftarrow> py_float (get t_el ''y'' ''0'');
     layer \<leftarrow> py_int (get t_el ''layer'' ''0'');
     size \<leftarrow> py_float (get t_el ''size'' ''1.27'');
     rot \<leftarrow> shape_rot_of_str (get t_el ''rot'' ''R0'');
     Some \<lparr>t_x = x, t_y = y,
           t_text = (case el_text t_el of None \<Rightarrow> '''' | Some s \<Rightarrow> s),
           t_layer = layer, t_size = size, t_rot = rot\<rparr> }"

definition add_text_from_xml :: "xml \<Rightarrow> Board \<Rightarrow> Board" where
  "add_text_from_xml t_el b =
     (case text_of_xml t_el of None \<Rightarrow> b | Some t \<Rightarrow> b\<lparr>texts := texts b @ [t]\<rparr>)"

text \<open>
  \<open>_parse_rot\<close>, the same in the parser and in the viewer: the descriptor of a placement.
  The mirror marker is stripped first, the \<open>R\<close> after it, and the angle of a mirrored
  placement is negated. \<open>None\<close> is the \<open>ValueError\<close> of \<open>float\<close>, which nothing catches
  here.
\<close>

definition parse_rot :: "string \<Rightarrow> real option" where
  "parse_rot rot_str =
     (if rot_str = [] then Some 0
      else let mirror = (hd rot_str = CHR ''M'');
               rot_str' = lstrip ''M'' rot_str
           in (case (if rot_str' \<noteq> [] then py_float (lstrip ''R'' rot_str') else Some 0) of
                 None \<Rightarrow> None
               | Some rot \<Rightarrow> Some (if mirror then - rot else rot)))"

section \<open>EagleParser: the passes over the document\<close>

function str_of_nat :: "nat \<Rightarrow> string" where
  "str_of_nat n =
     (if n < 10 then [char_of (48 + n)]
      else str_of_nat (n div 10) @ [char_of (48 + n mod 10)])"
  by pat_completeness auto
termination
  by (relation "measure id") auto

definition str_of_int :: "int \<Rightarrow> string" where
  "str_of_int i = (if i < 0 then CHR ''-'' # str_of_nat (nat (- i)) else str_of_nat (nat i))"

definition layer_of_xml :: "xml \<Rightarrow> Layer option" where
  "layer_of_xml l = do {
     num \<leftarrow> py_int (get l ''number'' ''0'');
     color \<leftarrow> py_int (get l ''color'' ''7'');
     Some \<lparr>l_number = num, l_name = get l ''name'' (''L'' @ str_of_int num),
           l_color = color, l_visible = (get l ''visible'' ''yes'' = ''yes''),
           l_active = (get l ''active'' ''yes'' = ''yes'')\<rparr> }"

definition parse_layers :: "xml \<Rightarrow> Board \<Rightarrow> Board" where
  "parse_layers drawing b =
     (case find_child drawing ''layers'' of
        None \<Rightarrow> b
      | Some ls \<Rightarrow>
          foldl (\<lambda>b l. case layer_of_xml l of
                          None \<Rightarrow> b
                        | Some ly \<Rightarrow> b\<lparr>layers := (layers b)(l_number ly \<mapsto> ly)\<rparr>)
                b (findall ls ''layer''))"

text \<open>
  One package: six loops in the source's order, each appending what it parsed to the
  package's \<open>shapes\<close>. The wire, pad and smd helpers also append to the board's flat
  lists; the circle, rectangle and (with \<open>in_package=True\<close>) polygon helpers do not.
\<close>

definition package_wires :: "xml list \<Rightarrow> shape list \<times> Board \<Rightarrow> shape list \<times> Board" where
  "package_wires els sb =
     foldl (\<lambda>(shapes, b) w. case add_wire_from_xml w ''package'' b of
                               (None, b') \<Rightarrow> (shapes, b')
                             | (Some w_obj, b') \<Rightarrow> (shapes @ [SWire w_obj], b')) sb els"

definition package_pads :: "xml list \<Rightarrow> shape list \<times> Board \<Rightarrow> shape list \<times> Board" where
  "package_pads els sb =
     foldl (\<lambda>(shapes, b) pad. case add_pad_from_xml pad b of
                                 (None, b') \<Rightarrow> (shapes, b')
                               | (Some pad_obj, b') \<Rightarrow> (shapes @ [SPad pad_obj], b')) sb els"

definition package_smds :: "xml list \<Rightarrow> shape list \<times> Board \<Rightarrow> shape list \<times> Board" where
  "package_smds els sb =
     foldl (\<lambda>(shapes, b) smd. case add_smd_from_xml smd b of
                                 (None, b') \<Rightarrow> (shapes, b')
                               | (Some smd_obj, b') \<Rightarrow> (shapes @ [SSMD smd_obj], b')) sb els"

definition package_circles :: "xml list \<Rightarrow> shape list \<times> Board \<Rightarrow> shape list \<times> Board" where
  "package_circles els sb =
     foldl (\<lambda>(shapes, b) c. case add_circle_from_xml c of
                               None \<Rightarrow> (shapes, b)
                             | Some c_obj \<Rightarrow> (shapes @ [SCircle c_obj], b)) sb els"

definition package_rects :: "xml list \<Rightarrow> shape list \<times> Board \<Rightarrow> shape list \<times> Board" where
  "package_rects els sb =
     foldl (\<lambda>(shapes, b) r. case add_rect_from_xml r of
                               None \<Rightarrow> (shapes, b)
                             | Some r_obj \<Rightarrow> (shapes @ [SRect r_obj], b)) sb els"

definition package_polygons :: "xml list \<Rightarrow> shape list \<times> Board \<Rightarrow> shape list \<times> Board" where
  "package_polygons els sb =
     foldl (\<lambda>(shapes, b) poly. case add_polygon_from_xml poly '''' True b of
                                  (None, b') \<Rightarrow> (shapes, b')
                                | (Some p_obj, b') \<Rightarrow> (shapes @ [SPolygon p_obj], b')) sb els"

definition package_shapes :: "xml \<Rightarrow> Board \<Rightarrow> shape list \<times> Board" where
  "package_shapes pkg b =
     package_polygons (findall pkg ''polygon'')
       (package_rects (findall pkg ''rectangle'')
         (package_circles (findall pkg ''circle'')
           (package_smds (findall pkg ''smd'')
             (package_pads (findall pkg ''pad'')
               (package_wires (findall pkg ''wire'') ([], b))))))"

definition parse_package :: "Board \<Rightarrow> xml \<Rightarrow> Board" where
  "parse_package b pkg =
     (let (shapes, b') = package_shapes pkg b
      in b'\<lparr>packages := (packages b')(get pkg ''name'' '''' \<mapsto> shapes)\<rparr>)"

definition parse_library :: "Board \<Rightarrow> xml \<Rightarrow> Board" where
  "parse_library b lib =
     (case find_child lib ''packages'' of
        None \<Rightarrow> b
      | Some pkgs \<Rightarrow> foldl parse_package b (findall pkgs ''package''))"

definition parse_libraries :: "xml \<Rightarrow> Board \<Rightarrow> Board" where
  "parse_libraries brd b =
     (case find_child brd ''libraries'' of
        None \<Rightarrow> b
      | Some libs \<Rightarrow> foldl parse_library b (findall libs ''library''))"

definition parse_plain :: "xml \<Rightarrow> Board \<Rightarrow> Board" where
  "parse_plain brd b =
     (case find_child brd ''plain'' of
        None \<Rightarrow> b
      | Some plain \<Rightarrow>
          (let b1 = foldl (\<lambda>b w. snd (add_wire_from_xml w ''plain'' b)) b (findall plain ''wire'');
               b2 = foldl (\<lambda>b p. snd (add_pad_from_xml p b)) b1 (findall plain ''pad'');
               b3 = foldl (\<lambda>b s. snd (add_smd_from_xml s b)) b2 (findall plain ''smd'');
               b4 = foldl (\<lambda>b poly. snd (add_polygon_from_xml poly '''' False b)) b3
                      (findall plain ''polygon'')
           in foldl (\<lambda>b t. add_text_from_xml t b) b4 (findall plain ''text'')))"

definition element_of_xml :: "xml \<Rightarrow> Element option" where
  "element_of_xml e = do {
     x \<leftarrow> py_float (get e ''x'' ''0'');
     y \<leftarrow> py_float (get e ''y'' ''0'');
     Some \<lparr>e_name = get e ''name'' '''', e_value = get e ''value'' '''',
           e_library = get e ''library'' '''', e_package = get e ''package'' '''',
           e_x = x, e_y = y, e_rot = get e ''rot'' ''''\<rparr> }"

definition parse_elements :: "xml \<Rightarrow> Board \<Rightarrow> Board" where
  "parse_elements brd b =
     (case find_child brd ''elements'' of
        None \<Rightarrow> b
      | Some els \<Rightarrow>
          foldl (\<lambda>b e. case element_of_xml e of
                          None \<Rightarrow> b
                        | Some el \<Rightarrow> b\<lparr>elements := elements b @ [el]\<rparr>)
                b (findall els ''element''))"

text \<open>
  A wire of a signal is appended by \<open>_add_wire_from_xml\<close> and then given its net in place:
  the object that was just appended is the last one of \<open>board.wires\<close>.
\<close>

definition signal_wire :: "string \<Rightarrow> Board \<Rightarrow> xml \<Rightarrow> Board" where
  "signal_wire name b w =
     (case add_wire_from_xml w ''signal'' b of
        (None, b') \<Rightarrow> b'
      | (Some w_obj, b') \<Rightarrow> b'\<lparr>wires := butlast (wires b') @ [w_obj\<lparr>w_net := name\<rparr>]\<rparr>)"

definition parse_signal :: "Board \<Rightarrow> xml \<Rightarrow> Board" where
  "parse_signal b s =
     (let name = get s ''name'' '''';
          b1 = foldl (signal_wire name) b (findall s ''wire'');
          b2 = foldl (\<lambda>b v. add_via_from_xml v name b) b1 (findall s ''via'')
      in foldl (\<lambda>b poly. snd (add_polygon_from_xml poly name False b)) b2
           (findall s ''polygon''))"

definition parse_signals :: "xml \<Rightarrow> Board \<Rightarrow> Board" where
  "parse_signals brd b =
     (case find_child brd ''signals'' of
        None \<Rightarrow> b
      | Some signals \<Rightarrow> foldl parse_signal b (findall signals ''signal''))"

section \<open>Placing a package shape on the board\<close>

text \<open>
  Both \<open>_compute_bounds\<close> and \<open>_draw_element_shapes\<close> spell the same three steps out for
  every coordinate: \<open>v if not mirror else -v\<close> on the local x, the rotation
  \<open>(rx * cos - ry * sin, rx * sin + ry * cos)\<close>, and the addition of the placement's
  position. \<open>mir\<close> is the first step and \<open>place\<close> the other two.
\<close>

definition mir :: "bool \<Rightarrow> real \<Rightarrow> real" where
  "mir mirror v = (if \<not> mirror then v else - v)"

definition place :: "real \<Rightarrow> real \<Rightarrow> real \<Rightarrow> real \<times> real \<Rightarrow> real \<times> real" where
  "place angle ex ey p =
     (case p of (rx, ry) \<Rightarrow>
        (ex + (rx * cos angle - ry * sin angle), ey + (rx * sin angle + ry * cos angle)))"

text \<open>\<open>mirror = 'M' in e.rot\<close>.\<close>

definition is_mirrored :: "string \<Rightarrow> bool" where
  "is_mirrored rot = (CHR ''M'' \<in> set rot)"

section \<open>EagleParser: the bounds\<close>

text \<open>
  The coordinates one package shape adds to \<open>xs\<close> and \<open>ys\<close>. The source appends to the
  two lists in step, so the model keeps one list of points: \<open>xs\<close> is its first
  components and \<open>ys\<close> its second.
\<close>

primrec shape_coords :: "bool \<Rightarrow> real \<Rightarrow> real \<Rightarrow> real \<Rightarrow> shape \<Rightarrow> (real \<times> real) list" where
  "shape_coords mirror angle ex ey (SWire s) =
     [place angle ex ey (mir mirror (w_x1 s), w_y1 s),
      place angle ex ey (mir mirror (w_x2 s), w_y2 s)]"
| "shape_coords mirror angle ex ey (SPad s) =
     [place angle ex ey (mir mirror (p_x s), p_y s)]"
| "shape_coords mirror angle ex ey (SSMD s) =
     [place angle ex ey (mir mirror (s_x s), s_y s)]"
| "shape_coords mirror angle ex ey (SCircle s) =
     [place angle ex ey (mir mirror (c_x s), c_y s)]"
| "shape_coords mirror angle ex ey (SRect s) =
     (let x1 = mir mirror (r_x1 s); y1 = r_y1 s;
          x2 = mir mirror (r_x2 s); y2 = r_y2 s
      in map (place angle ex ey)
           [(min x1 x2, min y1 y2), (min x1 x2, max y1 y2),
            (max x1 x2, min y1 y2), (max x1 x2, max y1 y2)])"
| "shape_coords mirror angle ex ey (SPolygon s) =
     map (\<lambda>(vx, vy). place angle ex ey (mir mirror vx, vy)) (poly_vertices s)"

text \<open>\<open>self.board.packages.get(e.package, [])\<close>.\<close>

definition package_of :: "Board \<Rightarrow> Element \<Rightarrow> shape list" where
  "package_of b e = (case packages b (e_package e) of None \<Rightarrow> [] | Some shapes \<Rightarrow> shapes)"

text \<open>
  One placement: its position, then its package's shapes. \<open>_parse_rot\<close> is called outside
  any \<open>try\<close>, so its \<open>ValueError\<close> leaves \<open>_compute_bounds\<close> and \<open>parse\<close>.
\<close>

definition element_coords :: "Board \<Rightarrow> Element \<Rightarrow> error + (real \<times> real) list" where
  "element_coords b e =
     (case parse_rot (e_rot e) of
        None \<Rightarrow> Inl ValueError
      | Some r \<Rightarrow>
          Inr ((e_x e, e_y e) #
               concat (map (shape_coords (is_mirrored (e_rot e)) (radians r) (e_x e) (e_y e))
                           (package_of b e))))"

fun elements_coords :: "Board \<Rightarrow> Element list \<Rightarrow> error + (real \<times> real) list" where
  "elements_coords b [] = Inr []"
| "elements_coords b (e # es) =
     (case element_coords b e of
        Inl err \<Rightarrow> Inl err
      | Inr cs \<Rightarrow> (case elements_coords b es of
                     Inl err \<Rightarrow> Inl err
                   | Inr rest \<Rightarrow> Inr (cs @ rest)))"

definition scan_coords :: "Board \<Rightarrow> error + (real \<times> real) list" where
  "scan_coords b =
     (case elements_coords b (elements b) of
        Inl err \<Rightarrow> Inl err
      | Inr ecs \<Rightarrow>
          Inr (concat (map (\<lambda>w. [(w_x1 w, w_y1 w), (w_x2 w, w_y2 w)]) (wires b))
               @ map (\<lambda>v. (v_x v, v_y v)) (vias b)
               @ map (\<lambda>p. (p_x p, p_y p)) (pads b)
               @ map (\<lambda>s. (s_x s, s_y s)) (smds b)
               @ ecs
               @ concat (map poly_vertices (polygons b))))"

text \<open>
  Python's \<open>min\<close> and \<open>max\<close> of a non-empty list: the first item, replaced by each later
  item that is smaller (larger).
\<close>

definition fold_min :: "real \<Rightarrow> real list \<Rightarrow> real" where
  "fold_min x xs = foldl (\<lambda>m v. if v < m then v else m) x xs"

definition fold_max :: "real \<Rightarrow> real list \<Rightarrow> real" where
  "fold_max x xs = foldl (\<lambda>m v. if v > m then v else m) x xs"

definition bounds_of :: "(real \<times> real) list \<Rightarrow> real \<times> real \<times> real \<times> real" where
  "bounds_of pts =
     (case pts of
        [] \<Rightarrow> (0, 0, 100, 100)
      | p # ps \<Rightarrow> (fold_min (fst p) (map fst ps), fold_min (snd p) (map snd ps),
                   fold_max (fst p) (map fst ps), fold_max (snd p) (map snd ps)))"

definition compute_bounds :: "Board \<Rightarrow> error + Board" where
  "compute_bounds b =
     (case scan_coords b of
        Inl err \<Rightarrow> Inl err
      | Inr pts \<Rightarrow> Inr (b\<lparr>bounds := Some (bounds_of pts)\<rparr>))"

section \<open>EagleParser.parse\<close>

text \<open>
  What \<open>ET.parse(self.path)\<close> gives: a \<open>ParseError\<close>, any other exception, or the tree,
  of which \<open>getroot()\<close> is the root element.
\<close>

datatype source = ParseError string | OpenError string | Document xml

definition parse :: "source \<Rightarrow> error + Board" where
  "parse src =
     (case src of
        ParseError e \<Rightarrow> Inl (RuntimeError (''XML parse error: '' @ e))
      | OpenError e \<Rightarrow> Inl (RuntimeError (''Failed to open file: '' @ e))
      | Document root_el \<Rightarrow>
          (case find_child root_el ''drawing'' of
             None \<Rightarrow> Inl (RuntimeError ''Not an EAGLE XML file (missing <drawing> root)'')
           | Some drawing \<Rightarrow>
               (case find_child drawing ''board'' of
                  None \<Rightarrow> Inl (RuntimeError ''Not a board file (missing <board> element)'')
                | Some brd \<Rightarrow>
                    compute_bounds
                      (parse_signals brd
                        (parse_elements brd
                          (parse_plain brd
                            (parse_libraries brd
                              (parse_layers drawing empty_board))))))))"

section \<open>BRDViewer: nets and placed shapes\<close>

text \<open>
  \<open>_populate_nets\<close> collects the set \<open>nets\<close> and hands it, sorted, to the list box; the set
  is the result here.
\<close>

definition populate_nets :: "Board \<Rightarrow> string set" where
  "populate_nets b =
     (let nets = foldl (\<lambda>nets w. if w_net w \<noteq> [] then insert (w_net w) nets else nets)
                   {} (wires b);
          nets = foldl (\<lambda>nets v. if v_net v \<noteq> [] then insert (v_net v) nets else nets)
                   nets (vias b)
      in foldl (\<lambda>nets poly. if poly_net poly \<noteq> [] then insert (poly_net poly) nets else nets)
           nets (polygons b))"

definition flip_layer :: "int \<Rightarrow> int" where
  "flip_layer layer =
     (if layer = 1 then 16 else if layer = 16 then 1
      else if layer = 21 then 22 else if layer = 22 then 21
      else if layer = 25 then 26 else if layer = 26 then 25
      else if layer = 29 then 30 else if layer = 30 then 29
      else layer)"

text \<open>
  What \<open>_draw_element_shapes\<close> hands to the canvas helpers, in world coordinates (the
  helpers apply \<open>world_to_screen\<close>, and the rectangle branch applies it to each of its four
  points before \<open>create_polygon\<close>). The highlight flag only picks a colour and is left out.
\<close>

datatype drawn =
  DrawWire Wire | DrawCircle Circle | CreatePolygon "(real \<times> real) list" int
  | DrawPolygon Polygon | DrawPad Pad | DrawSMD SMD

text \<open>
  \<open>shape.rot + (self._parse_rot(e.rot) if not mirror else -self._parse_rot(e.rot))\<close>, where
  \<open>pr\<close> is what \<open>_parse_rot(e.rot)\<close> returned.
\<close>

definition shape_rot :: "bool \<Rightarrow> real \<Rightarrow> real \<Rightarrow> real" where
  "shape_rot mirror pr rot = rot + (if \<not> mirror then pr else - pr)"

definition shape_layer :: "bool \<Rightarrow> int \<Rightarrow> int" where
  "shape_layer mirror layer = (if mirror then flip_layer layer else layer)"

primrec draw_shape :: "bool \<Rightarrow> real \<Rightarrow> real \<Rightarrow> real \<Rightarrow> int set \<Rightarrow> shape \<Rightarrow> drawn list" where
  "draw_shape mirror pr ex ey visible_layers (SWire s) =
     (let angle = radians pr;
          (abs_x1, abs_y1) = place angle ex ey (mir mirror (w_x1 s), w_y1 s);
          (abs_x2, abs_y2) = place angle ex ey (mir mirror (w_x2 s), w_y2 s);
          w_transformed = \<lparr>w_x1 = abs_x1, w_y1 = abs_y1, w_x2 = abs_x2, w_y2 = abs_y2,
                           w_width = w_width s, w_layer = shape_layer mirror (w_layer s),
                           w_kind = ''plain'', w_net = ''''\<rparr>
      in if w_layer w_transformed \<in> visible_layers then [DrawWire w_transformed] else [])"
| "draw_shape mirror pr ex ey visible_layers (SCircle s) =
     (let angle = radians pr;
          (abs_x, abs_y) = place angle ex ey (mir mirror (c_x s), c_y s);
          layer = shape_layer mirror (c_layer s)
      in if layer \<in> visible_layers
         then [DrawCircle \<lparr>c_x = abs_x, c_y = abs_y, c_radius = c_radius s,
                           c_width = c_width s, c_layer = layer\<rparr>]
         else [])"
| "draw_shape mirror pr ex ey visible_layers (SRect s) =
     (let angle = radians pr;
          x1 = mir mirror (r_x1 s); y1 = r_y1 s;
          x2 = mir mirror (r_x2 s); y2 = r_y2 s;
          x_min = min x1 x2; x_max = max x1 x2;
          y_min = min y1 y2; y_max = max y1 y2;
          cx = (x_min + x_max) / 2; cy = (y_min + y_max) / 2;
          layer = shape_layer mirror (r_layer s)
      in if layer \<in> visible_layers
         then [CreatePolygon
                 (map (place angle ex ey)
                    [(x_min - cx, y_min - cy), (x_min - cx, y_max - cy),
                     (x_max - cx, y_min - cy), (x_max - cx, y_max - cy)])
                 layer]
         else [])"
| "draw_shape mirror pr ex ey visible_layers (SPolygon s) =
     (let angle = radians pr;
          verts_transformed =
            map (\<lambda>(vx, vy). place angle ex ey (mir mirror vx, vy)) (poly_vertices s);
          layer = shape_layer mirror (poly_layer s)
      in if layer \<in> visible_layers
         then [DrawPolygon \<lparr>poly_vertices = verts_transformed, poly_layer = layer,
                            poly_width = poly_width s, poly_net = poly_net s,
                            poly_fill = poly_fill s, poly_is_outline = poly_is_outline s\<rparr>]
         else [])"
| "draw_shape mirror pr ex ey visible_layers (SPad s) =
     (let angle = radians pr;
          (abs_x, abs_y) = place angle ex ey (mir mirror (p_x s), p_y s);
          rot = shape_rot mirror pr (p_rot s);
          layer = shape_layer mirror (p_layer s)
      in if layer \<notin> visible_layers then []
         else [DrawPad \<lparr>p_name = p_name s, p_x = abs_x, p_y = abs_y, p_drill = p_drill s,
                        p_diameter = p_diameter s, p_dx = p_dx s, p_dy = p_dy s,
                        p_shape = p_shape s, p_layer = layer, p_rot = rot\<rparr>])"
| "draw_shape mirror pr ex ey visible_layers (SSMD s) =
     (let angle = radians pr;
          (abs_x, abs_y) = place angle ex ey (mir mirror (s_x s), s_y s);
          rot = shape_rot mirror pr (s_rot s);
          layer = shape_layer mirror (s_layer s)
      in if layer \<notin> visible_layers then []
         else [DrawSMD \<lparr>s_name = s_name s, s_x = abs_x, s_y = abs_y, s_dx = s_dx s,
                        s_dy = s_dy s, s_layer = layer, s_roundness = s_roundness s,
                        s_rot = rot\<rparr>])"

definition draw_element_shapes :: "Board \<Rightarrow> Element \<Rightarrow> int set \<Rightarrow> error + drawn list" where
  "draw_element_shapes b e visible_layers =
     (case parse_rot (e_rot e) of
        None \<Rightarrow> Inl ValueError
      | Some pr \<Rightarrow>
          Inr (concat (map (draw_shape (is_mirrored (e_rot e)) pr (e_x e) (e_y e) visible_layers)
                           (package_of b e))))"

section \<open>Vocabulary of the properties\<close>

text \<open>
  The characters a literal accepted by \<open>py_float\<close> is made of. Neither the mirror marker
  nor \<open>R\<close> is one of them.
\<close>

definition float_char :: "char \<Rightarrow> bool" where
  "float_char c = (is_space c \<or> is_digit c \<or> c \<in> set ''+-._eE'')"

text \<open>
  The package-local points of a shape: the endpoints of a wire, the centre of a pad, smd
  or circle, the four corners of a rectangle, the vertices of a polygon.
\<close>

primrec local_points :: "shape \<Rightarrow> (real \<times> real) list" where
  "local_points (SWire s) = [(w_x1 s, w_y1 s), (w_x2 s, w_y2 s)]"
| "local_points (SPad s) = [(p_x s, p_y s)]"
| "local_points (SSMD s) = [(s_x s, s_y s)]"
| "local_points (SCircle s) = [(c_x s, c_y s)]"
| "local_points (SRect s) =
     [(min (r_x1 s) (r_x2 s), min (r_y1 s) (r_y2 s)),
      (min (r_x1 s) (r_x2 s), max (r_y1 s) (r_y2 s)),
      (max (r_x1 s) (r_x2 s), min (r_y1 s) (r_y2 s)),
      (max (r_x1 s) (r_x2 s), max (r_y1 s) (r_y2 s))]"
| "local_points (SPolygon s) = poly_vertices s"

text \<open>The world points of what was handed to the canvas.\<close>

primrec drawn_points :: "drawn \<Rightarrow> (real \<times> real) list" where
  "drawn_points (DrawWire w) = [(w_x1 w, w_y1 w), (w_x2 w, w_y2 w)]"
| "drawn_points (DrawCircle c) = [(c_x c, c_y c)]"
| "drawn_points (CreatePolygon pts layer) = pts"
| "drawn_points (DrawPolygon p) = poly_vertices p"
| "drawn_points (DrawPad p) = [(p_x p, p_y p)]"
| "drawn_points (DrawSMD s) = [(s_x s, s_y s)]"

text \<open>Reflection across the vertical line through \<open>x = ex\<close>.\<close>

definition reflect_x :: "real \<Rightarrow> real \<times> real \<Rightarrow> real \<times> real" where
  "reflect_x ex p = (ex - (fst p - ex), snd p)"

text \<open>
  A package-local point after the counter-clockwise rotation by \<open>d\<close> degrees, the point
  of an unmirrored placement at \<open>(px, py)\<close>, which adds the position, and the point of a
  mirrored placement, whose x is the position minus the rotated local x and whose y is
  that of the unmirrored point.
\<close>

definition rotated :: "real \<Rightarrow> real \<times> real \<Rightarrow> real \<times> real" where
  "rotated d p = (fst p * cos (d * pi / 180) - snd p * sin (d * pi / 180),
                  fst p * sin (d * pi / 180) + snd p * cos (d * pi / 180))"

definition unmirrored_point :: "real \<Rightarrow> real \<Rightarrow> real \<Rightarrow> real \<times> real \<Rightarrow> real \<times> real" where
  "unmirrored_point d px py p = (px + fst (rotated d p), py + snd (rotated d p))"

definition mirrored_point :: "real \<Rightarrow> real \<Rightarrow> real \<Rightarrow> real \<times> real \<Rightarrow> real \<times> real" where
  "mirrored_point d px py p = (px - fst (rotated d p), py + snd (rotated d p))"

definition is_rect :: "shape \<Rightarrow> bool" where
  "is_rect s = (case s of SRect r \<Rightarrow> True | _ \<Rightarrow> False)"




text \<open>
  The flat lists only grow and the package table stays: what every pass after the
  libraries does to a board.
\<close>

definition flat_grows :: "Board \<Rightarrow> Board \<Rightarrow> bool" where
  "flat_grows b b' =
     (set (wires b) \<subseteq> set (wires b') \<and> set (pads b) \<subseteq> set (pads b')
      \<and> set (smds b) \<subseteq> set (smds b') \<and> packages b' = packages b)"

text \<open>
  Every wire, pad and smd of a shape list is in the board's flat lists, and is what the
  element helper built from the attributes of some XML element.
\<close>

definition shapes_flat :: "shape list \<Rightarrow> Board \<Rightarrow> bool" where
  "shapes_flat shapes b =
     ((\<forall>w. SWire w \<in> set shapes \<longrightarrow>
          w \<in> set (wires b) \<and> (\<exists>el. wire_of_xml el ''package'' = Some w))
      \<and> (\<forall>p. SPad p \<in> set shapes \<longrightarrow> p \<in> set (pads b) \<and> (\<exists>el. pad_of_xml el = Some p))
      \<and> (\<forall>s. SSMD s \<in> set shapes \<longrightarrow> s \<in> set (smds b) \<and> (\<exists>el. smd_of_xml el = Some s)))"

definition packages_flat :: "Board \<Rightarrow> bool" where
  "packages_flat b = (\<forall>name shapes. packages b name = Some shapes \<longrightarrow> shapes_flat shapes b)"

text \<open>
  While the loops of one package run from the board \<open>b0\<close>: the shapes collected so far
  are in the flat lists, which have only grown, and the flat polygon list is untouched.
\<close>

definition package_inv :: "Board \<Rightarrow> shape list \<times> Board \<Rightarrow> bool" where
  "package_inv b0 sb =
     (shapes_flat (fst sb) (snd sb) \<and> flat_grows b0 (snd sb)
      \<and> polygons (snd sb) = polygons b0)"

text \<open>The package elements of all libraries of a board element, in document order.\<close>

definition library_packages :: "xml \<Rightarrow> xml list" where
  "library_packages brd =
     (case find_child brd ''libraries'' of
        None \<Rightarrow> []
      | Some libs \<Rightarrow>
          concat (map (\<lambda>lib. case find_child lib ''packages'' of
                               None \<Rightarrow> []
                             | Some pkgs \<Rightarrow> findall pkgs ''package'')
                      (findall libs ''library'')))"

text \<open>The flat lists of wires, pads and smds only grow.\<close>

definition lists_grow :: "Board \<Rightarrow> Board \<Rightarrow> bool" where
  "lists_grow b b' =
     (set (wires b) \<subseteq> set (wires b') \<and> set (pads b) \<subseteq> set (pads b')
      \<and> set (smds b) \<subseteq> set (smds b'))"

text \<open>
  Every wire, pad and smd element of a package element that its helper can read is in the
  board's flat list, as the record the helper builds from it.
\<close>

definition declared_flat :: "xml \<Rightarrow> Board \<Rightarrow> bool" where
  "declared_flat pkg b =
     ((\<forall>el \<in> set (findall pkg ''wire''). \<forall>w. wire_of_xml el ''package'' = Some w \<longrightarrow> w \<in> set (wires b))
      \<and> (\<forall>el \<in> set (findall pkg ''pad''). \<forall>p. pad_of_xml el = Some p \<longrightarrow> p \<in> set (pads b))
      \<and> (\<forall>el \<in> set (findall pkg ''smd''). \<forall>s. smd_of_xml el = Some s \<longrightarrow> s \<in> set (smds b)))"

text \<open>
  The record that a shape element of a package declares, field by field from the
  attributes of the element: the coordinates are those of the attributes, package-local,
  and nothing is added to them.
\<close>

definition wire_declares :: "xml \<Rightarrow> Wire \<Rightarrow> bool" where
  "wire_declares el w =
     (py_float (get el ''x1'' ''0'') = Some (w_x1 w) \<and> py_float (get el ''y1'' ''0'') = Some (w_y1 w)
      \<and> py_float (get el ''x2'' ''0'') = Some (w_x2 w) \<and> py_float (get el ''y2'' ''0'') = Some (w_y2 w)
      \<and> py_float (get el ''width'' ''0.1'') = Some (w_width w)
      \<and> py_int (get el ''layer'' ''0'') = Some (w_layer w)
      \<and> w_kind w = ''package'' \<and> w_net w = [])"

definition pad_declares :: "xml \<Rightarrow> Pad \<Rightarrow> bool" where
  "pad_declares el p =
     (p_name p = get el ''name'' []
      \<and> py_float (get el ''x'' ''0'') = Some (p_x p) \<and> py_float (get el ''y'' ''0'') = Some (p_y p)
      \<and> py_float (get el ''drill'' ''0'') = Some (p_drill p)
      \<and> py_float (get el ''diameter'' ''0'') = Some (p_diameter p)
      \<and> p_shape p = get el ''shape'' ''round''
      \<and> p_dx p = (if p_shape p = ''round'' then 0 else p_diameter p)
      \<and> p_dy p = (if p_shape p = ''round'' then 0 else p_diameter p)
      \<and> py_int (get el ''layer'' ''0'') = Some (p_layer p)
      \<and> py_float (lstrip ''M'' (lstrip ''R'' (get el ''rot'' ''R0''))) = Some (p_rot p))"

definition smd_declares :: "xml \<Rightarrow> SMD \<Rightarrow> bool" where
  "smd_declares el s =
     (s_name s = get el ''name'' []
      \<and> py_float (get el ''x'' ''0'') = Some (s_x s) \<and> py_float (get el ''y'' ''0'') = Some (s_y s)
      \<and> py_float (get el ''dx'' ''0'') = Some (s_dx s) \<and> py_float (get el ''dy'' ''0'') = Some (s_dy s)
      \<and> py_int (get el ''layer'' ''0'') = Some (s_layer s)
      \<and> py_float (get el ''roundness'' ''0'') = Some (s_roundness s)
      \<and> py_float (lstrip ''M'' (lstrip ''R'' (get el ''rot'' ''R0''))) = Some (s_rot s))"

definition circle_declares :: "xml \<Rightarrow> Circle \<Rightarrow> bool" where
  "circle_declares el c =
     (py_float (get el ''x'' ''0'') = Some (c_x c) \<and> py_float (get el ''y'' ''0'') = Some (c_y c)
      \<and> py_float (get el ''radius'' ''0'') = Some (c_radius c)
      \<and> py_float (get el ''width'' ''0.1'') = Some (c_width c)
      \<and> py_int (get el ''layer'' ''0'') = Some (c_layer c))"

definition rect_declares :: "xml \<Rightarrow> Rect \<Rightarrow> bool" where
  "rect_declares el r =
     (py_float (get el ''x1'' ''0'') = Some (r_x1 r) \<and> py_float (get el ''y1'' ''0'') = Some (r_y1 r)
      \<and> py_float (get el ''x2'' ''0'') = Some (r_x2 r) \<and> py_float (get el ''y2'' ''0'') = Some (r_y2 r)
      \<and> py_int (get el ''layer'' ''0'') = Some (r_layer r)
      \<and> py_float (lstrip ''M'' (lstrip ''R'' (get el ''rot'' ''R0''))) = Some (r_rot r))"

text \<open>A polygon of a package has no net, so it is never filled.\<close>

definition polygon_declares :: "xml \<Rightarrow> Polygon \<Rightarrow> bool" where
  "polygon_declares el q =
     (py_int (get el ''layer'' ''0'') = Some (poly_layer q)
      \<and> py_float (get el ''width'' ''0.1'') = Some (poly_width q)
      \<and> map (\<lambda>v. (py_float (get v ''x'' ''0''), py_float (get v ''y'' ''0''))) (findall el ''vertex'')
          = map (\<lambda>(x, y). (Some x, Some y)) (poly_vertices q)
      \<and> length (poly_vertices q) > 2
      \<and> poly_net q = [] \<and> \<not> poly_fill q \<and> poly_is_outline q = (poly_layer q = 20))"

text \<open>A point within the bounds that the board stores.\<close>

definition in_bounds :: "Board \<Rightarrow> real \<times> real \<Rightarrow> bool" where
  "in_bounds b p =
     (case bounds b of
        None \<Rightarrow> False
      | Some (min_x, min_y, max_x, max_y) \<Rightarrow>
          min_x \<le> fst p \<and> fst p \<le> max_x \<and> min_y \<le> snd p \<and> snd p \<le> max_y)"

text \<open>
  The shapes that the six loops over a package element collect, in their order: what
  each helper reads from the wire, pad, smd, circle, rectangle and polygon elements.
\<close>

definition read_shapes :: "xml \<Rightarrow> shape list" where
  "read_shapes pkg =
     map SWire (List.map_filter (\<lambda>el. wire_of_xml el ''package'') (findall pkg ''wire''))
     @ map SPad (List.map_filter pad_of_xml (findall pkg ''pad''))
     @ map SSMD (List.map_filter smd_of_xml (findall pkg ''smd''))
     @ map SCircle (List.map_filter add_circle_from_xml (findall pkg ''circle''))
     @ map SRect (List.map_filter add_rect_from_xml (findall pkg ''rectangle''))
     @ map SPolygon (List.map_filter (\<lambda>el. polygon_of_xml el []) (findall pkg ''polygon''))"

text \<open>The polygon elements of the plain section and of the signals, with their nets.\<close>

definition flat_polygon_sources :: "xml \<Rightarrow> (xml \<times> string) set" where
  "flat_polygon_sources brd =
     (case find_child brd ''plain'' of
        None \<Rightarrow> {}
      | Some plain \<Rightarrow> (\<lambda>p. (p, '''')) ` set (findall plain ''polygon''))
     \<union> (case find_child brd ''signals'' of
          None \<Rightarrow> {}
        | Some signals \<Rightarrow>
            (\<Union>s \<in> set (findall signals ''signal'').
               (\<lambda>p. (p, get s ''name'' '''')) ` set (findall s ''polygon'')))"

definition polygons_from :: "(xml \<times> string) set \<Rightarrow> Board \<Rightarrow> bool" where
  "polygons_from src b =
     (\<forall>q \<in> set (polygons b). \<exists>(p, net) \<in> src. polygon_of_xml p net = Some q)"

section \<open>Example boards\<close>

definition pad_at :: "real \<Rightarrow> real \<Rightarrow> Pad" where
  "pad_at x y = \<lparr>p_name = ''1'', p_x = x, p_y = y, p_drill = 0, p_diameter = 0, p_dx = 0,
                 p_dy = 0, p_shape = ''round'', p_layer = 1, p_rot = 0\<rparr>"

definition rect_of :: "real \<Rightarrow> real \<Rightarrow> real \<Rightarrow> real \<Rightarrow> Rect" where
  "rect_of x1 y1 x2 y2 = \<lparr>r_x1 = x1, r_y1 = y1, r_x2 = x2, r_y2 = y2, r_layer = 51, r_rot = 0\<rparr>"

definition one_package_board :: "shape list \<Rightarrow> Board" where
  "one_package_board shapes = empty_board\<lparr>packages := [''PKG'' \<mapsto> shapes]\<rparr>"

definition placement :: "real \<Rightarrow> real \<Rightarrow> string \<Rightarrow> Element" where
  "placement x y rot = \<lparr>e_name = ''U1'', e_value = '''', e_library = '''', e_package = ''PKG'',
                        e_x = x, e_y = y, e_rot = rot\<rparr>"

text \<open>A shape element that carries only a rotation descriptor, and a board file around one
  placement with a given descriptor.\<close>

definition rot_only :: "string \<Rightarrow> string \<Rightarrow> xml" where
  "rot_only tg rot = XmlElement tg [(''rot'', rot)] None []"

definition board_file :: "xml list \<Rightarrow> xml" where
  "board_file sections =
     XmlElement ''eagle'' [] None
       [XmlElement ''drawing'' [] None [XmlElement ''board'' [] None sections]]"

definition one_element_file :: "string \<Rightarrow> xml" where
  "one_element_file rot =
     board_file [XmlElement ''elements'' [] None
       [XmlElement ''element'' [(''name'', ''U1''), (''package'', ''PKG''), (''x'', ''0''),
                                (''y'', ''0''), (''rot'', rot)] None []]]"

definition wire_of :: "real \<Rightarrow> real \<Rightarrow> real \<Rightarrow> real \<Rightarrow> Wire" where
  "wire_of x1 y1 x2 y2 = \<lparr>w_x1 = x1, w_y1 = y1, w_x2 = x2, w_y2 = y2, w_width = 1 / 10,
                           w_layer = 1, w_kind = ''plain'', w_net = ''''\<rparr>"

text \<open>A board with one wire and one placement of a package that holds one pad.\<close>

definition demo_board :: Board where
  "demo_board = (one_package_board [SPad (pad_at 1 2)])
                  \<lparr>wires := [wire_of 0 0 2 3], elements := [placement 5 0 ''R90'']\<rparr>"

definition leaf :: "string \<Rightarrow> (string \<times> string) list \<Rightarrow> xml" where
  "leaf tg attrs = XmlElement tg attrs None []"

definition triangle :: "string \<Rightarrow> xml" where
  "triangle layer =
     XmlElement ''polygon'' [(''layer'', layer)] None
       [leaf ''vertex'' [(''x'', ''0''), (''y'', ''0'')],
        leaf ''vertex'' [(''x'', ''4''), (''y'', ''0'')],
        leaf ''vertex'' [(''x'', ''0''), (''y'', ''3'')]]"

text \<open>A board file with an outline polygon in the plain section and a signal \<open>GND\<close> that
  has one polygon on the top copper layer and one on the outline layer.\<close>

definition poly_file :: xml where
  "poly_file =
     board_file
       [XmlElement ''plain'' [] None [triangle ''20''],
        XmlElement ''signals'' [] None
          [XmlElement ''signal'' [(''name'', ''GND'')] None [triangle ''1'', triangle ''20'']]]"

text \<open>A board file whose library has one package with one shape of every kind.\<close>

definition lib_wire :: xml where
  "lib_wire = leaf ''wire'' [(''x1'', ''1''), (''y1'', ''1''), (''x2'', ''2''), (''y2'', ''1''),
                             (''layer'', ''21'')]"

definition lib_pad :: xml where
  "lib_pad = leaf ''pad'' [(''name'', ''P1''), (''x'', ''3''), (''y'', ''0'')]"

definition lib_smd :: xml where
  "lib_smd = leaf ''smd'' [(''name'', ''S1''), (''x'', ''-3''), (''y'', ''0''), (''layer'', ''1'')]"

definition lib_circle :: xml where
  "lib_circle = leaf ''circle'' [(''x'', ''0''), (''y'', ''0''), (''radius'', ''1''),
                                 (''layer'', ''21'')]"

definition lib_rect :: xml where
  "lib_rect = leaf ''rectangle'' [(''x1'', ''-1''), (''y1'', ''-1''), (''x2'', ''1''),
                                  (''y2'', ''1''), (''layer'', ''21'')]"

definition lib_package :: xml where
  "lib_package =
     XmlElement ''package'' [(''name'', ''PKG'')] None
       [lib_wire, lib_pad, lib_smd, lib_circle, lib_rect, triangle ''21'']"

definition lib_file :: xml where
  "lib_file =
     board_file
       [XmlElement ''libraries'' [] None
          [XmlElement ''library'' [] None [XmlElement ''packages'' [] None [lib_package]]]]"

text \<open>A board file with two libraries that each declare a package \<open>P\<close>, the first with the
  pad \<open>A\<close> and the second with the pad \<open>B\<close>.\<close>

definition named_pad :: "string \<Rightarrow> real \<Rightarrow> Pad" where
  "named_pad n x = \<lparr>p_name = n, p_x = x, p_y = 0, p_drill = 0, p_diameter = 0, p_dx = 0,
                    p_dy = 0, p_shape = ''round'', p_layer = 0, p_rot = 0\<rparr>"

definition library_of :: "string \<Rightarrow> xml list \<Rightarrow> xml" where
  "library_of lname pkgs =
     XmlElement ''library'' [(''name'', lname)] None [XmlElement ''packages'' [] None pkgs]"

definition same_name_file :: xml where
  "same_name_file =
     board_file
       [XmlElement ''libraries'' [] None
          [library_of ''L1''
             [XmlElement ''package'' [(''name'', ''P'')] None
                [leaf ''pad'' [(''name'', ''A''), (''x'', ''1''), (''y'', ''0'')]]],
           library_of ''L2''
             [XmlElement ''package'' [(''name'', ''P'')] None
                [leaf ''pad'' [(''name'', ''B''), (''x'', ''2''), (''y'', ''0'')]]]]]"

section \<open>Literals and rotation descriptors\<close>

text \<open>
  A literal that \<open>py_float\<close> accepts consists of blanks, signs, digits, underscores, a
  point and an exponent mark. So it contains neither \<open>M\<close> nor \<open>R\<close>, and the two
  \<open>lstrip\<close> calls of \<open>_parse_rot\<close> leave it alone.
\<close>

lemmas py_defs = py_float_def py_int_def split_sign_def py_strip_def is_space_def
  mantissa_def exponent_def scale10_def digits_val_def digit_val_def is_digit_def
  is_exp_mark_def num_digits_def lstrip_def

lemmas xml_defs = get_def get_opt_def find_child_def findall_def rot_only_def board_file_def
  one_element_file_def

lemmas fixture_defs = pad_at_def one_package_board_def placement_def empty_board_def
  package_of_def

lemma digitpart_chars: "digitpart s \<Longrightarrow> c \<in> set s \<Longrightarrow> is_digit c \<or> c = CHR ''_''"
  by (induction s rule: digitpart.induct) (auto split: if_splits)

lemma mantissa_chars:
  assumes "mantissa m = Some v" and "c \<in> set m"
  shows "is_digit c \<or> c = CHR ''_'' \<or> c = CHR ''.''"
proof -
  let ?P = "\<lambda>c. c \<noteq> CHR ''.''"
  let ?ip = "takeWhile ?P m" and ?rest = "dropWhile ?P m"
  have split: "m = ?ip @ ?rest" by simp
  show ?thesis
  proof (cases "?rest = []")
    case True
    with assms(1) have "digitpart ?ip" by (simp add: mantissa_def Let_def split: if_splits)
    moreover from True have "m = ?ip" by (metis append_Nil2 takeWhile_dropWhile_id)
    ultimately show ?thesis using assms(2) digitpart_chars by metis
  next
    case False
    then have hd: "hd ?rest = CHR ''.''" using hd_dropWhile [of ?P m] by simp
    with False have rest: "?rest = CHR ''.'' # tl ?rest" by (metis list.collapse)
    from assms(1) False have ok:
      "(tl ?rest = [] \<or> digitpart (tl ?rest)) \<and> (?ip = [] \<or> digitpart ?ip)"
      by (auto simp add: mantissa_def Let_def split: if_splits)
    from assms(2) split rest have "c \<in> set ?ip \<or> c = CHR ''.'' \<or> c \<in> set (tl ?rest)"
      by (metis Un_iff set_ConsD set_append)
    with ok show ?thesis using digitpart_chars by fastforce
  qed
qed

lemma split_sign_chars:
  "split_sign s = (neg, body) \<Longrightarrow> c \<in> set s \<Longrightarrow> c \<in> set body \<or> c = CHR ''+'' \<or> c = CHR ''-''"
  by (auto simp: split_sign_def split: list.splits if_splits)

lemma exponent_chars:
  assumes "exponent r = Some e" and "c \<in> set r"
  shows "c = hd r \<or> is_digit c \<or> c = CHR ''_'' \<or> c = CHR ''+'' \<or> c = CHR ''-''"
proof -
  from assms(2) have ne: "r \<noteq> []" by auto
  obtain neg body where sp: "split_sign (tl r) = (neg, body)" by (cases "split_sign (tl r)")
  with assms(1) ne have dp: "digitpart body"
    by (simp add: exponent_def split: if_splits)
  from assms(2) ne have "c = hd r \<or> c \<in> set (tl r)" by (cases r) auto
  then show ?thesis
    using split_sign_chars [OF sp] digitpart_chars [OF dp] by blast
qed

lemma py_strip_chars: "c \<in> set s \<Longrightarrow> c \<in> set (py_strip s) \<or> is_space c"
proof -
  assume c: "c \<in> set s"
  let ?t = "dropWhile is_space s"
  have "set s = set (takeWhile is_space s) \<union> set ?t"
    by (metis set_append takeWhile_dropWhile_id)
  moreover have "set ?t = set (takeWhile is_space (rev ?t)) \<union> set (dropWhile is_space (rev ?t))"
    by (metis set_append set_rev takeWhile_dropWhile_id)
  moreover have "\<And>x xs. x \<in> set (takeWhile is_space xs) \<Longrightarrow> is_space x"
    by (meson set_takeWhileD)
  ultimately show ?thesis using c by (auto simp: py_strip_def)
qed

lemma py_float_chars:
  assumes "py_float s = Some d" and "c \<in> set s"
  shows "float_char c"
proof -
  obtain neg body where sp: "split_sign (py_strip s) = (neg, body)"
    by (cases "split_sign (py_strip s)")
  let ?P = "\<lambda>c. \<not> is_exp_mark c"
  let ?m = "takeWhile ?P body" and ?r = "dropWhile ?P body"
  from assms(1) sp obtain v e where m: "mantissa ?m = Some v" and e: "exponent ?r = Some e"
    by (auto simp: py_float_def split: option.splits)
  have hd: "?r \<noteq> [] \<Longrightarrow> is_exp_mark (hd ?r)" using hd_dropWhile [of ?P body] by simp
  have body: "set body = set ?m \<union> set ?r" by (metis set_append takeWhile_dropWhile_id)
  from py_strip_chars [OF assms(2)] show ?thesis
  proof
    assume "c \<in> set (py_strip s)"
    with split_sign_chars [OF sp] body
    consider "c \<in> set ?m" | "c \<in> set ?r" | "c = CHR ''+'' \<or> c = CHR ''-''" by blast
    then show ?thesis
    proof cases
      case 1
      with mantissa_chars [OF m] show ?thesis by (auto simp: float_char_def)
    next
      case 2
      then have "?r \<noteq> []" by (metis empty_iff empty_set)
      with hd have "is_exp_mark (hd ?r)" by simp
      with exponent_chars [OF e 2] show ?thesis by (auto simp: float_char_def is_exp_mark_def)
    next
      case 3
      then show ?thesis by (auto simp: float_char_def)
    qed
  next
    assume "is_space c"
    then show ?thesis by (simp add: float_char_def)
  qed
qed

lemma py_float_nonempty: "py_float s = Some d \<Longrightarrow> s \<noteq> []"
  by (auto simp: py_float_def py_strip_def split_sign_def mantissa_def)

lemma not_float_char_MR: "\<not> float_char (CHR ''M'')" "\<not> float_char (CHR ''R'')"
  by (simp_all add: float_char_def is_space_def is_digit_def digit_val_def)

lemma lstrip_keep: "s \<noteq> [] \<Longrightarrow> hd s \<notin> set chars \<Longrightarrow> lstrip chars s = s"
  by (cases s) (auto simp: lstrip_def)

lemma descriptor_parse:
  assumes "py_float ds = Some d"
  shows "parse_rot (''MR'' @ ds) = Some (- d)" and "parse_rot (''R'' @ ds) = Some d"
    and "parse_rot (''M'' @ ds) = Some (- d)" and "parse_rot ds = Some d"
    and "is_mirrored (''MR'' @ ds)" and "\<not> is_mirrored (''R'' @ ds)"
    and "is_mirrored (''M'' @ ds)" and "\<not> is_mirrored ds"
proof -
  from assms have ne: "ds \<noteq> []" by (rule py_float_nonempty)
  then have hdin: "hd ds \<in> set ds" by simp
  from py_float_chars [OF assms hdin] not_float_char_MR
  have hd: "hd ds \<noteq> CHR ''M''" "hd ds \<noteq> CHR ''R''" by auto
  have M: "CHR ''M'' \<notin> set ds" using py_float_chars [OF assms] not_float_char_MR by blast
  from ne hd have keep: "lstrip ''R'' ds = ds" "lstrip ''M'' ds = ds"
    by (simp_all add: lstrip_keep)
  from ne hd have dw: "dropWhile (\<lambda>c. c = CHR ''R'') ds = ds" "dropWhile (\<lambda>c. c = CHR ''M'') ds = ds"
    by (cases ds; simp)+
  show "parse_rot (''MR'' @ ds) = Some (- d)"
    using assms ne dw by (simp add: parse_rot_def lstrip_def)
  show "parse_rot (''R'' @ ds) = Some d"
    using assms ne dw by (simp add: parse_rot_def lstrip_def)
  show "parse_rot (''M'' @ ds) = Some (- d)"
    using assms ne dw by (simp add: parse_rot_def lstrip_def)
  show "parse_rot ds = Some d"
    using assms ne dw hd by (simp add: parse_rot_def lstrip_def)
  show "is_mirrored (''MR'' @ ds)" "is_mirrored (''M'' @ ds)" by (simp_all add: is_mirrored_def)
  show "\<not> is_mirrored (''R'' @ ds)" "\<not> is_mirrored ds" using M by (simp_all add: is_mirrored_def)
qed

lemma shape_rot_MR_rejected: "shape_rot_of_str (''MR'' @ ds) = None"
proof (rule ccontr)
  assume "shape_rot_of_str (''MR'' @ ds) \<noteq> None"
  then obtain d where "py_float (CHR ''R'' # ds) = Some d"
    by (auto simp: shape_rot_of_str_def lstrip_def)
  from py_float_chars [OF this, of "CHR ''R''"] not_float_char_MR show False by simp
qed

lemma float_90: "py_float ''90'' = Some 90"
  by (simp add: py_defs)

lemma radians_90: "radians 90 = pi / 2" "radians (- 90) = - (pi / 2)"
  by (simp_all add: radians_def)

section \<open>Mirroring, rotation and translation of a point\<close>

lemma radians_minus: "radians (- d) = - radians d"
  by (simp add: radians_def)

lemma place_mirror_reflect:
  "place (- a) ex ey (- x, y) = reflect_x ex (place a ex ey (x, y))"
  by (simp add: place_def reflect_x_def algebra_simps)

lemma place_mirror_explicit:
  "place (- a) ex ey (- x, y) = (ex - (x * cos a - y * sin a), ey + (x * sin a + y * cos a))"
  by (simp add: place_def algebra_simps)

lemma shape_coords_unmirrored:
  "shape_coords False a ex ey s = map (place a ex ey) (local_points s)"
  by (cases s) (auto simp: mir_def Let_def)

lemma min_neg: "min (- a) (- b) = - max a (b::real)" and max_neg: "max (- a) (- b) = - min a (b::real)"
  by (auto simp: min_def max_def)

lemma shape_coords_mirrored:
  "set (shape_coords True a ex ey s) = (\<lambda>(x, y). place a ex ey (- x, y)) ` set (local_points s)"
proof (cases s)
  case (SRect r)
  then show ?thesis by (auto simp: mir_def Let_def min_neg max_neg)
qed (auto simp: mir_def Let_def)

lemma shape_coords_reflect:
  "set (shape_coords True (- a) ex ey s) = reflect_x ex ` set (shape_coords False a ex ey s)"
  unfolding shape_coords_mirrored shape_coords_unmirrored
  by (auto simp: place_mirror_reflect image_iff split_beta)

section \<open>Placements with the mirror marker\<close>

text \<open>
  Claim C1 reads the rotation of a mirrored placement as the degree value of its
  descriptor. For the descriptor \<open>MR90\<close> that value is 90, and a pad at the local point
  \<open>(1, 0)\<close> of a placement at the origin would land on \<open>(0, -1)\<close>. \<open>_parse_rot\<close> negates
  the angle of a mirrored descriptor, so \<open>_compute_bounds\<close> rotates by -90 degrees and
  the pad lands on \<open>(0, 1)\<close>.
\<close>

theorem mirrored_rotation_counterexample:
  "py_float ''90'' = Some 90
   \<and> element_coords (one_package_board [SPad (pad_at 1 0)]) (placement 0 0 ''MR90'')
       = Inr [(0, 0), (0, 1)]
   \<and> place (radians 90) 0 0 (- 1, 0) = (0, - 1)
   \<and> element_coords (one_package_board [SPad (pad_at 1 0)]) (placement 0 0 ''MR90'')
       \<noteq> Inr [(0, 0), place (radians 90) 0 0 (- 1, 0)]"
  by (simp add: float_90 element_coords_def descriptor_parse [OF float_90, simplified]
        fixture_defs radians_90 place_def mir_def)

text \<open>
  Claim C1, amended: for a placement whose descriptor is \<open>M\<close>, an optional \<open>R\<close> and the
  degree value \<open>d\<close>, \<open>_compute_bounds\<close> scans the placement's position and then,
  for every point \<open>(x, y)\<close> of every shape of its package, the point
  \<open>position + R(radians (- d)) (- x, y)\<close>: the local x is negated, y is kept, the
  counter-clockwise rotation matrix is taken at the negated degree value, and the position
  is added last.
\<close>

theorem mirrored_placement_points:
  assumes "py_float ds = Some d" and "rmark = ''R'' \<or> rmark = []"
    and "e_rot e = ''M'' @ rmark @ ds"
  shows "\<exists>pts. element_coords b e = Inr ((e_x e, e_y e) # pts)
           \<and> set pts = (\<Union>s \<in> set (package_of b e).
                 (\<lambda>(x, y). place (radians (- d)) (e_x e) (e_y e) (- x, y)) ` set (local_points s))"
proof -
  from descriptor_parse [OF assms(1)] assms(2,3)
  have pr: "parse_rot (e_rot e) = Some (- d)" and m: "is_mirrored (e_rot e)" by auto
  show ?thesis
    by (simp add: element_coords_def pr m shape_coords_mirrored)
qed

theorem mirrored_placement_points_witness:
  "py_float ''90'' = Some 90 \<and> e_rot (placement 0 0 ''MR90'') = ''M'' @ ''R'' @ ''90''
   \<and> (\<exists>pts. element_coords (one_package_board [SPad (pad_at 1 0)]) (placement 0 0 ''MR90'')
              = Inr ((0, 0) # pts) \<and> set pts = {(0, 1)})"
  using mirrored_placement_points [of "''90''" 90 "''R''" "placement 0 0 ''MR90''"
          "one_package_board [SPad (pad_at 1 0)]"]
  by (simp add: float_90 fixture_defs radians_90 place_def)

section \<open>Mirrored placements are reflections\<close>

lemma rel_mirror:
  fixes x1 x2 :: real
  shows "min (- x1) (- x2) - (min (- x1) (- x2) + max (- x1) (- x2)) / 2
           = - (max x1 x2 - (min x1 x2 + max x1 x2) / 2)"
    and "max (- x1) (- x2) - (min (- x1) (- x2) + max (- x1) (- x2)) / 2
           = - (min x1 x2 - (min x1 x2 + max x1 x2) / 2)"
  by (auto simp: min_def max_def field_simps)

lemma draw_rect_reflect:
  "set (concat (map drawn_points (draw_shape True (- d) ex ey UNIV (SRect r))))
     = reflect_x ex ` set (concat (map drawn_points (draw_shape False d ex ey UNIV (SRect r))))"
proof -
  define a where "a = min (r_x1 r) (r_x2 r) - (min (r_x1 r) (r_x2 r) + max (r_x1 r) (r_x2 r)) / 2"
  define A where "A = max (r_x1 r) (r_x2 r) - (min (r_x1 r) (r_x2 r) + max (r_x1 r) (r_x2 r)) / 2"
  define c where "c = min (r_y1 r) (r_y2 r) - (min (r_y1 r) (r_y2 r) + max (r_y1 r) (r_y2 r)) / 2"
  define C where "C = max (r_y1 r) (r_y2 r) - (min (r_y1 r) (r_y2 r) + max (r_y1 r) (r_y2 r)) / 2"
  have ma: "min (- r_x1 r) (- r_x2 r) - (min (- r_x1 r) (- r_x2 r) + max (- r_x1 r) (- r_x2 r)) / 2 = - A"
    and mA: "max (- r_x1 r) (- r_x2 r) - (min (- r_x1 r) (- r_x2 r) + max (- r_x1 r) (- r_x2 r)) / 2 = - a"
    unfolding a_def A_def by (rule rel_mirror)+
  have m: "concat (map drawn_points (draw_shape True (- d) ex ey UNIV (SRect r)))
           = map (place (- radians d) ex ey) [(- A, c), (- A, C), (- a, c), (- a, C)]"
    by (simp add: Let_def mir_def radians_minus ma mA c_def [symmetric] C_def [symmetric])
  have u: "concat (map drawn_points (draw_shape False d ex ey UNIV (SRect r)))
           = map (place (radians d) ex ey) [(a, c), (a, C), (A, c), (A, C)]"
    by (simp add: Let_def mir_def a_def [symmetric] A_def [symmetric] c_def [symmetric]
          C_def [symmetric])
  show ?thesis
    unfolding m u by (simp add: place_mirror_reflect insert_commute)
qed

lemma draw_shape_reflect:
  "set (concat (map drawn_points (draw_shape True (- d) ex ey UNIV s)))
     = reflect_x ex ` set (concat (map drawn_points (draw_shape False d ex ey UNIV s)))"
proof (cases s)
  case (SRect r)
  show ?thesis unfolding SRect by (rule draw_rect_reflect)
qed (simp_all add: Let_def split_beta mir_def radians_minus place_mirror_reflect
       image_image comp_def)

lemma concat_points_image:
  assumes "\<And>x. set (concat (map g (f x))) = h ` set (concat (map g (f' x)))"
  shows "set (concat (map g (concat (map f xs)))) = h ` set (concat (map g (concat (map f' xs))))"
proof (induction xs)
  case Nil
  show ?case by simp
next
  case (Cons x xs)
  have "set (concat (map g (concat (map f (x # xs)))))
          = set (concat (map g (f x))) \<union> set (concat (map g (concat (map f xs))))"
    by simp
  also have "\<dots> = h ` set (concat (map g (f' x)))
                    \<union> h ` set (concat (map g (concat (map f' xs))))"
    by (simp only: assms Cons.IH)
  also have "\<dots> = h ` set (concat (map g (concat (map f' (x # xs)))))"
    by (simp add: image_Un)
  finally show ?case .
qed

lemma draw_element_shapes_eq:
  assumes "parse_rot (e_rot e) = Some pr" and "is_mirrored (e_rot e) = m"
  shows "draw_element_shapes b e vis
           = Inr (concat (map (draw_shape m pr (e_x e) (e_y e) vis) (package_of b e)))"
  using assms by (simp add: draw_element_shapes_def)

lemma element_coords_eq:
  assumes "parse_rot (e_rot e) = Some pr" and "is_mirrored (e_rot e) = m"
  shows "element_coords b e
           = Inr ((e_x e, e_y e) #
                  concat (map (shape_coords m (radians pr) (e_x e) (e_y e)) (package_of b e)))"
  using assms by (simp add: element_coords_def)

text \<open>
  Claim C3 puts every instanced point of a mirrored placement at \<open>P.x\<close> minus the local x
  after the rotation, in the bounds and in what is drawn. A rectangle from \<open>(1, 1)\<close> to
  \<open>(3, 2)\<close> of the placement \<open>MR0\<close> at \<open>(10, 20)\<close> would have its corners at x = 9 and
  x = 7 and at y = 21 and y = 22. \<open>_compute_bounds\<close> scans these corners;
  \<open>_draw_element_shapes\<close> hands \<open>create_polygon\<close> the corners x = 9 and x = 11, y = 19.5
  and y = 20.5, a rectangle around the position of the placement.
\<close>

theorem mirrored_rect_drawn_counterexample:
  "draw_element_shapes (one_package_board [SRect (rect_of 1 1 3 2)])
       (placement 10 20 ''MR0'') {51}
     = Inr [CreatePolygon [(9, 39 / 2), (9, 41 / 2), (11, 39 / 2), (11, 41 / 2)] 51]
   \<and> map (mirrored_point 0 10 20) (local_points (SRect (rect_of 1 1 3 2)))
     = [(9, 21), (9, 22), (7, 21), (7, 22)]
   \<and> element_coords (one_package_board [SRect (rect_of 1 1 3 2)]) (placement 10 20 ''MR0'')
     = Inr [(10, 20), (7, 21), (7, 22), (9, 21), (9, 22)]"
  by (simp add: element_coords_def draw_element_shapes_def parse_rot_def is_mirrored_def
        fixture_defs rect_of_def radians_def place_def mir_def shape_layer_def py_defs
        mirrored_point_def rotated_def flip_layer_def)

lemma place_unmirrored_point:
  "place (radians d) ex ey p = unmirrored_point d ex ey p"
  by (cases p) (simp add: place_def unmirrored_point_def rotated_def radians_def)

lemma place_mirrored_point:
  "place (- radians d) ex ey (- x, y) = mirrored_point d ex ey (x, y)"
  by (simp add: place_mirror_explicit mirrored_point_def rotated_def radians_def)

lemma mirrored_point_reflect:
  "mirrored_point d ex ey p = reflect_x ex (unmirrored_point d ex ey p)"
  by (simp add: mirrored_point_def unmirrored_point_def reflect_x_def)

lemma draw_shape_unmirrored_points:
  "\<exists>it. draw_shape False d ex ey UNIV s = [it]
     \<and> (is_rect s \<or> drawn_points it = map (unmirrored_point d ex ey) (local_points s))"
  by (cases s)
     (simp_all add: Let_def split_beta mir_def is_rect_def place_unmirrored_point)

lemma draw_shape_mirrored_points:
  "\<exists>it. draw_shape True (- d) ex ey UNIV s = [it]
     \<and> (is_rect s \<or> drawn_points it = map (mirrored_point d ex ey) (local_points s))"
  by (cases s)
     (simp_all add: Let_def split_beta mir_def is_rect_def radians_minus place_mirrored_point)

lemma drawn_one_each:
  assumes "\<And>s. \<exists>it. f s = [it] \<and> P s it"
  shows "list_all2 P ss (concat (map f ss))"
proof (induction ss)
  case Nil
  show ?case by simp
next
  case (Cons s ss)
  from assms [of s] obtain it where "f s = [it]" "P s it" by blast
  with Cons.IH show ?case by simp
qed


lemma mirrored_point_fun:
  "(\<lambda>(x, y). place (- radians d) ex ey (- x, y)) = mirrored_point d ex ey"
  by (auto simp: fun_eq_iff place_mirrored_point)

lemma unmirrored_point_fun: "place (radians d) ex ey = unmirrored_point d ex ey"
  by (auto simp: fun_eq_iff place_unmirrored_point)

text \<open>
  Claim C3, amended: take a placement whose descriptor is \<open>M\<close>, an optional \<open>R\<close> and the
  degree value \<open>d\<close>, and an unmirrored placement of the same package at the same
  position with the same degree value, in real arithmetic. In the bounds scan every local
  point of every shape of the package, the corners of a rectangle among them, is placed at
  \<open>(P.x - (x cos d - y sin d), P.y + (x sin d + y cos d))\<close> by the mirrored placement and
  at \<open>(P.x + (x cos d - y sin d), P.y + (x sin d + y cos d))\<close> by the unmirrored one. With
  every layer visible the drawing path draws one item for every shape of the package, and
  the points of the item of a wire, pad, smd, circle or polygon are these same points; a
  rectangle is left out here, it is drawn around the position of the placement. On both paths
  the points of the mirrored placement are the mirror image, across the vertical line
  through \<open>P.x\<close>, of the points of the unmirrored one, for every angle and so for angle 0.
\<close>

theorem mirrored_instance_points:
  assumes "py_float ds = Some d"
    and "rm = ''R'' \<or> rm = []" and "ru = ''R'' \<or> ru = []"
    and "e_rot em = ''M'' @ rm @ ds" and "e_rot eu = ru @ ds"
    and "e_x em = e_x eu" and "e_y em = e_y eu" and "e_package em = e_package eu"
  shows "\<exists>pm pu dm du.
           element_coords b em = Inr ((e_x em, e_y em) # pm)
           \<and> element_coords b eu = Inr ((e_x em, e_y em) # pu)
           \<and> set pm = (\<Union>s \<in> set (package_of b em).
                          mirrored_point d (e_x em) (e_y em) ` set (local_points s))
           \<and> pu = concat (map (\<lambda>s. map (unmirrored_point d (e_x em) (e_y em)) (local_points s))
                              (package_of b em))
           \<and> set pm = reflect_x (e_x em) ` set pu
           \<and> draw_element_shapes b em UNIV = Inr dm \<and> draw_element_shapes b eu UNIV = Inr du
           \<and> list_all2 (\<lambda>s it. is_rect s \<or> drawn_points it
                            = map (mirrored_point d (e_x em) (e_y em)) (local_points s))
                (package_of b em) dm
           \<and> list_all2 (\<lambda>s it. is_rect s \<or> drawn_points it
                            = map (unmirrored_point d (e_x em) (e_y em)) (local_points s))
                (package_of b em) du
           \<and> set (concat (map drawn_points dm))
               = reflect_x (e_x em) ` set (concat (map drawn_points du))"
proof -
  let ?ex = "e_x em" and ?ey = "e_y em" and ?shapes = "package_of b em"
  let ?pm = "concat (map (shape_coords True (- radians d) ?ex ?ey) ?shapes)"
  let ?pu = "concat (map (shape_coords False (radians d) ?ex ?ey) ?shapes)"
  let ?dm = "concat (map (draw_shape True (- d) ?ex ?ey UNIV) ?shapes)"
  let ?du = "concat (map (draw_shape False d ?ex ?ey UNIV) ?shapes)"
  from descriptor_parse [OF assms(1)] assms(2,4)
  have m: "parse_rot (e_rot em) = Some (- d)" "is_mirrored (e_rot em) = True"
    by auto
  from descriptor_parse [OF assms(1)] assms(3,5)
  have u: "parse_rot (e_rot eu) = Some d" "is_mirrored (e_rot eu) = False"
    by auto
  have pkg: "package_of b eu = ?shapes" using assms(8) by (simp add: package_of_def)
  have cm: "element_coords b em = Inr ((?ex, ?ey) # ?pm)"
    using element_coords_eq [OF m] by (simp add: radians_minus)
  have cu: "element_coords b eu = Inr ((?ex, ?ey) # ?pu)"
    using element_coords_eq [OF u] assms(6,7) pkg by simp
  have dm: "draw_element_shapes b em UNIV = Inr ?dm"
    using draw_element_shapes_eq [OF m] by simp
  have du: "draw_element_shapes b eu UNIV = Inr ?du"
    using draw_element_shapes_eq [OF u] assms(6,7) pkg by simp
  have s1: "set ?pm = (\<Union>s \<in> set ?shapes. mirrored_point d ?ex ?ey ` set (local_points s))"
    by (simp add: shape_coords_mirrored mirrored_point_fun)
  have s2: "?pu = concat (map (\<lambda>s. map (unmirrored_point d ?ex ?ey) (local_points s)) ?shapes)"
    by (rule arg_cong [where f = concat], rule map_cong [OF refl])
       (simp add: shape_coords_unmirrored unmirrored_point_fun)
  have s3: "set ?pm = reflect_x ?ex ` set ?pu"
    by (simp add: shape_coords_reflect image_UN)
  have l1: "list_all2 (\<lambda>s it. is_rect s \<or> drawn_points it
                         = map (mirrored_point d ?ex ?ey) (local_points s)) ?shapes ?dm"
    by (rule drawn_one_each) (rule draw_shape_mirrored_points)
  have l2: "list_all2 (\<lambda>s it. is_rect s \<or> drawn_points it
                         = map (unmirrored_point d ?ex ?ey) (local_points s)) ?shapes ?du"
    by (rule drawn_one_each) (rule draw_shape_unmirrored_points)
  have r3: "set (concat (map drawn_points ?dm)) = reflect_x ?ex ` set (concat (map drawn_points ?du))"
    by (rule concat_points_image) (rule draw_shape_reflect)
  show ?thesis
    using cm cu s1 s2 s3 dm du l1 l2 r3 by (intro exI conjI)
qed

theorem mirrored_instance_points_witness:
  "py_float ''90'' = Some 90
   \<and> e_rot (placement 5 0 ''MR90'') = ''M'' @ ''R'' @ ''90''
   \<and> e_rot (placement 5 0 ''R90'') = ''R'' @ ''90''
   \<and> (\<exists>pm dm du.
         element_coords (one_package_board [SPad (pad_at 1 2), SRect (rect_of 1 1 3 2)])
             (placement 5 0 ''MR90'') = Inr ((5, 0) # pm)
         \<and> set pm = {(7, 1), (6, 1), (6, 3), (7, 3)}
         \<and> element_coords (one_package_board [SPad (pad_at 1 2), SRect (rect_of 1 1 3 2)])
             (placement 5 0 ''R90'') = Inr [(5, 0), (3, 1), (4, 1), (3, 1), (4, 3), (3, 3)]
         \<and> draw_element_shapes (one_package_board [SPad (pad_at 1 2), SRect (rect_of 1 1 3 2)])
             (placement 5 0 ''MR90'') UNIV = Inr dm
         \<and> draw_element_shapes (one_package_board [SPad (pad_at 1 2), SRect (rect_of 1 1 3 2)])
             (placement 5 0 ''R90'') UNIV = Inr du
         \<and> length dm = 2 \<and> drawn_points (hd dm) = [(7, 1)]
         \<and> length du = 2 \<and> drawn_points (hd du) = [(3, 1)])"
proof -
  let ?B = "one_package_board [SPad (pad_at 1 2), SRect (rect_of 1 1 3 2)]"
  let ?em = "placement 5 0 ''MR90''" and ?eu = "placement 5 0 ''R90''"
  have r: "e_rot ?em = ''M'' @ ''R'' @ ''90''" "e_rot ?eu = ''R'' @ ''90''"
    by (simp_all add: placement_def)
  have p: "package_of ?B ?em = [SPad (pad_at 1 2), SRect (rect_of 1 1 3 2)]"
    "e_x ?em = 5" "e_y ?em = 0"
    by (simp_all add: fixture_defs)
  have t: "\<exists>pm pu dm du.
           element_coords ?B ?em = Inr ((5, 0) # pm)
           \<and> element_coords ?B ?eu = Inr ((5, 0) # pu)
           \<and> set pm = (\<Union>s \<in> set [SPad (pad_at 1 2), SRect (rect_of 1 1 3 2)].
                          mirrored_point 90 5 0 ` set (local_points s))
           \<and> pu = concat (map (\<lambda>s. map (unmirrored_point 90 5 0) (local_points s))
                              [SPad (pad_at 1 2), SRect (rect_of 1 1 3 2)])
           \<and> set pm = reflect_x 5 ` set pu
           \<and> draw_element_shapes ?B ?em UNIV = Inr dm \<and> draw_element_shapes ?B ?eu UNIV = Inr du
           \<and> list_all2 (\<lambda>s it. is_rect s \<or> drawn_points it
                            = map (mirrored_point 90 5 0) (local_points s))
                [SPad (pad_at 1 2), SRect (rect_of 1 1 3 2)] dm
           \<and> list_all2 (\<lambda>s it. is_rect s \<or> drawn_points it
                            = map (unmirrored_point 90 5 0) (local_points s))
                [SPad (pad_at 1 2), SRect (rect_of 1 1 3 2)] du
           \<and> set (concat (map drawn_points dm))
               = reflect_x 5 ` set (concat (map drawn_points du))"
    using mirrored_instance_points [OF float_90, of "''R''" "''R''" ?em ?eu ?B]
    unfolding p by (simp add: placement_def)
  then obtain pm pu dm du where
    cm: "element_coords ?B ?em = Inr ((5, 0) # pm)"
    and cu: "element_coords ?B ?eu = Inr ((5, 0) # pu)"
    and sm: "set pm = (\<Union>s \<in> set [SPad (pad_at 1 2), SRect (rect_of 1 1 3 2)].
                          mirrored_point 90 5 0 ` set (local_points s))"
    and su: "pu = concat (map (\<lambda>s. map (unmirrored_point 90 5 0) (local_points s))
                              [SPad (pad_at 1 2), SRect (rect_of 1 1 3 2)])"
    and dm: "draw_element_shapes ?B ?em UNIV = Inr dm"
    and du: "draw_element_shapes ?B ?eu UNIV = Inr du"
    and lm: "list_all2 (\<lambda>s it. is_rect s \<or> drawn_points it
                            = map (mirrored_point 90 5 0) (local_points s))
                [SPad (pad_at 1 2), SRect (rect_of 1 1 3 2)] dm"
    and lu: "list_all2 (\<lambda>s it. is_rect s \<or> drawn_points it
                            = map (unmirrored_point 90 5 0) (local_points s))
                [SPad (pad_at 1 2), SRect (rect_of 1 1 3 2)] du"
    by (elim exE conjE)
  have sm': "set pm = {(7, 1), (6, 1), (6, 3), (7, 3)}"
    unfolding sm by (auto simp: mirrored_point_def rotated_def pad_at_def rect_of_def)
  have su': "pu = [(3, 1), (4, 1), (3, 1), (4, 3), (3, 3)]"
    unfolding su by (simp add: unmirrored_point_def rotated_def pad_at_def rect_of_def)
  from lm have lm': "length dm = 2" "drawn_points (hd dm) = [(7, 1)]"
    by (auto simp: list_all2_Cons1 is_rect_def mirrored_point_def rotated_def pad_at_def)
  from lu have lu': "length du = 2" "drawn_points (hd du) = [(3, 1)]"
    by (auto simp: list_all2_Cons1 is_rect_def unmirrored_point_def rotated_def pad_at_def)
  from float_90 r cm sm' cu [unfolded su'] dm du lm' lu' show ?thesis
    by (intro exI conjI)
qed

lemma shape_rot_degrees:
  "shape_rot True (- d) rot = rot + d" "shape_rot False d rot = rot + d"
  by (simp_all add: shape_rot_def)

lemma drawn_pad_source:
  assumes "DrawPad p \<in> set (draw_shape m pr ex ey vis s)"
  shows "\<exists>q. s = SPad q \<and> p_name p = p_name q \<and> p_rot p = shape_rot m pr (p_rot q)"
  using assms by (cases s) (auto simp: Let_def split_beta split: if_splits)

lemma drawn_smd_source:
  assumes "DrawSMD p \<in> set (draw_shape m pr ex ey vis s)"
  shows "\<exists>q. s = SSMD q \<and> s_name p = s_name q \<and> s_rot p = shape_rot m pr (s_rot q)"
  using assms by (cases s) (auto simp: Let_def split_beta split: if_splits)

lemma visible_pad_drawn:
  assumes "shape_layer m (p_layer q) \<in> vis"
  shows "\<exists>p. DrawPad p \<in> set (draw_shape m pr ex ey vis (SPad q))
             \<and> p_name p = p_name q \<and> p_rot p = shape_rot m pr (p_rot q)"
  using assms by (simp add: Let_def split_beta)

lemma visible_smd_drawn:
  assumes "shape_layer m (s_layer q) \<in> vis"
  shows "\<exists>p. DrawSMD p \<in> set (draw_shape m pr ex ey vis (SSMD q))
             \<and> s_name p = s_name q \<and> s_rot p = shape_rot m pr (s_rot q)"
  using assms by (simp add: Let_def split_beta)

lemma in_concat_map: "x \<in> set xs \<Longrightarrow> y \<in> set (f x) \<Longrightarrow> y \<in> set (concat (map f xs))"
  by auto

text \<open>
  Claim C2 gives a shape under a mirrored placement the rotation
  \<open>shape.rotation - placement_angle\<close>, with the degree value of the descriptor as the
  placement angle. Under \<open>MR90\<close> a pad of rotation 0 is drawn with rotation 90, not -90:
  \<open>_parse_rot\<close> has already negated the angle of the mirrored descriptor, and the drawing
  code subtracts that negated value.
\<close>

theorem mirrored_pad_rot_counterexample:
  "py_float ''90'' = Some 90
   \<and> draw_element_shapes (one_package_board [SPad (pad_at 0 0)]) (placement 0 0 ''MR90'') {16}
       = Inr [DrawPad ((pad_at 0 0)\<lparr>p_layer := 16, p_rot := p_rot (pad_at 0 0) + 90\<rparr>)]
   \<and> draw_element_shapes (one_package_board [SPad (pad_at 0 0)]) (placement 0 0 ''MR90'') {16}
       \<noteq> Inr [DrawPad ((pad_at 0 0)\<lparr>p_layer := 16, p_rot := p_rot (pad_at 0 0) - 90\<rparr>)]"
  by (simp add: float_90 draw_element_shapes_def descriptor_parse [OF float_90, simplified]
        fixture_defs radians_90 place_def mir_def shape_rot_def shape_layer_def flip_layer_def)

text \<open>
  Claim C2, amended: for a placement whose descriptor is an optional \<open>M\<close>, an optional
  \<open>R\<close> and the degree value \<open>d\<close>, every pad and every smd that is drawn has the
  rotation \<open>shape.rotation + d\<close> of the package's pad or smd it comes from, mirrored or
  not, and every pad and smd of the package whose layer is visible is drawn. In terms of
  the value \<open>pr\<close> that \<open>_parse_rot\<close> returns (\<open>d\<close> unmirrored, \<open>-d\<close> mirrored) this is
  \<open>shape.rotation + pr\<close> unmirrored and \<open>shape.rotation - pr\<close> mirrored. The rectangle
  branch computes the same value and does not use it.
\<close>

theorem instanced_rotation_field:
  assumes "py_float ds = Some d" and "rmark = ''R'' \<or> rmark = []"
    and "e_rot e = (if m then ''M'' else []) @ rmark @ ds"
  shows "\<exists>pr out. parse_rot (e_rot e) = Some pr \<and> is_mirrored (e_rot e) = m
           \<and> draw_element_shapes b e vis = Inr out
           \<and> (\<forall>p. DrawPad p \<in> set out \<longrightarrow>
                 (\<exists>s. SPad s \<in> set (package_of b e) \<and> p_name p = p_name s
                      \<and> p_rot p = p_rot s + d))
           \<and> (\<forall>s. SPad s \<in> set (package_of b e) \<and> shape_layer m (p_layer s) \<in> vis \<longrightarrow>
                 (\<exists>p. DrawPad p \<in> set out \<and> p_name p = p_name s \<and> p_rot p = p_rot s + d))
           \<and> (\<forall>p. DrawSMD p \<in> set out \<longrightarrow>
                 (\<exists>s. SSMD s \<in> set (package_of b e) \<and> s_name p = s_name s
                      \<and> s_rot p = s_rot s + d))
           \<and> (\<forall>s. SSMD s \<in> set (package_of b e) \<and> shape_layer m (s_layer s) \<in> vis \<longrightarrow>
                 (\<exists>p. DrawSMD p \<in> set out \<and> s_name p = s_name s \<and> s_rot p = s_rot s + d))
           \<and> (\<forall>rot. shape_rot m pr rot = rot + d)"
proof -
  define pr where "pr = (if m then - d else d)"
  from descriptor_parse [OF assms(1)] assms(2,3)
  have p: "parse_rot (e_rot e) = Some pr" and im: "is_mirrored (e_rot e) = m"
    by (cases m; auto simp: pr_def)+
  have sr: "\<And>rot. shape_rot m pr rot = rot + d"
    by (cases m) (simp_all add: pr_def shape_rot_degrees)
  let ?out = "concat (map (draw_shape m pr (e_x e) (e_y e) vis) (package_of b e))"
  have out: "draw_element_shapes b e vis = Inr ?out"
    by (rule draw_element_shapes_eq [OF p im])
  have a: "\<forall>p. DrawPad p \<in> set ?out \<longrightarrow>
             (\<exists>s. SPad s \<in> set (package_of b e) \<and> p_name p = p_name s \<and> p_rot p = p_rot s + d)"
    using drawn_pad_source sr by fastforce
  have b: "\<forall>s. SPad s \<in> set (package_of b e) \<and> shape_layer m (p_layer s) \<in> vis \<longrightarrow>
             (\<exists>p. DrawPad p \<in> set ?out \<and> p_name p = p_name s \<and> p_rot p = p_rot s + d)"
  proof (intro allI impI)
    fix s assume s: "SPad s \<in> set (package_of b e) \<and> shape_layer m (p_layer s) \<in> vis"
    with visible_pad_drawn [of m s vis pr "e_x e" "e_y e"] obtain p where
      "DrawPad p \<in> set (draw_shape m pr (e_x e) (e_y e) vis (SPad s))"
      "p_name p = p_name s" "p_rot p = shape_rot m pr (p_rot s)" by blast
    with s sr in_concat_map [of "SPad s" "package_of b e" "DrawPad p"]
    show "\<exists>p. DrawPad p \<in> set ?out \<and> p_name p = p_name s \<and> p_rot p = p_rot s + d"
      by metis
  qed
  have c: "\<forall>p. DrawSMD p \<in> set ?out \<longrightarrow>
             (\<exists>s. SSMD s \<in> set (package_of b e) \<and> s_name p = s_name s \<and> s_rot p = s_rot s + d)"
    using drawn_smd_source sr by fastforce
  have d: "\<forall>s. SSMD s \<in> set (package_of b e) \<and> shape_layer m (s_layer s) \<in> vis \<longrightarrow>
             (\<exists>p. DrawSMD p \<in> set ?out \<and> s_name p = s_name s \<and> s_rot p = s_rot s + d)"
  proof (intro allI impI)
    fix s assume s: "SSMD s \<in> set (package_of b e) \<and> shape_layer m (s_layer s) \<in> vis"
    with visible_smd_drawn [of m s vis pr "e_x e" "e_y e"] obtain p where
      "DrawSMD p \<in> set (draw_shape m pr (e_x e) (e_y e) vis (SSMD s))"
      "s_name p = s_name s" "s_rot p = shape_rot m pr (s_rot s)" by blast
    with s sr in_concat_map [of "SSMD s" "package_of b e" "DrawSMD p"]
    show "\<exists>p. DrawSMD p \<in> set ?out \<and> s_name p = s_name s \<and> s_rot p = s_rot s + d"
      by metis
  qed
  from p im out a b c d sr show ?thesis by blast
qed

theorem instanced_rotation_field_witness:
  "py_float ''90'' = Some 90
   \<and> e_rot (placement 0 0 ''MR90'') = (if True then ''M'' else []) @ ''R'' @ ''90''
   \<and> draw_element_shapes (one_package_board [SPad (pad_at 0 0)]) (placement 0 0 ''MR90'') {16}
       = Inr [DrawPad ((pad_at 0 0)\<lparr>p_layer := 16, p_rot := p_rot (pad_at 0 0) + 90\<rparr>)]"
  using instanced_rotation_field [of "''90''" 90 "''R''" "placement 0 0 ''MR90''" True
          "one_package_board [SPad (pad_at 0 0)]" "{16}"]
  by (simp add: float_90 draw_element_shapes_def descriptor_parse [OF float_90, simplified]
        fixture_defs radians_90 place_def mir_def shape_rot_def shape_layer_def flip_layer_def)

section \<open>Rotation descriptors of shapes\<close>

text \<open>
  With \<open>R\<close> alone, with \<open>M\<close> alone or with neither, the shape helpers read the degree
  value; with \<open>MR\<close> they never do (\<open>shape_rot_MR_rejected\<close>).
\<close>

lemma shape_rot_unmirrored:
  assumes "py_float ds = Some d"
  shows "shape_rot_of_str (''R'' @ ds) = Some d" and "shape_rot_of_str ds = Some d"
    and "shape_rot_of_str (''M'' @ ds) = Some d"
proof -
  from assms have ne: "ds \<noteq> []" by (rule py_float_nonempty)
  then have hdin: "hd ds \<in> set ds" by simp
  from py_float_chars [OF assms hdin] not_float_char_MR
  have hd: "hd ds \<noteq> CHR ''M''" "hd ds \<noteq> CHR ''R''" by auto
  from ne hd have dw: "dropWhile (\<lambda>c. c = CHR ''R'') ds = ds" "dropWhile (\<lambda>c. c = CHR ''M'') ds = ds"
    by (cases ds; simp)+
  show "shape_rot_of_str (''R'' @ ds) = Some d" "shape_rot_of_str ds = Some d"
    "shape_rot_of_str (''M'' @ ds) = Some d"
    using assms dw by (simp_all add: shape_rot_of_str_def lstrip_def)
qed

text \<open>
  Claim C4 says that a shape whose \<open>rot\<close> attribute is \<open>MR90\<close> is parsed and stored. The
  shape helpers strip \<open>R\<close> before \<open>M\<close>: \<open>"MR90".lstrip('R')\<close> is \<open>"MR90"\<close>, stripping
  \<open>M\<close> leaves \<open>"R90"\<close>, and \<open>float("R90")\<close> raises. The pad, the smd, the rectangle and
  the text are skipped, where the same pad with \<open>R90\<close> is stored; \<open>_parse_rot\<close>, which
  strips \<open>M\<close> first, reads the same descriptor.
\<close>

theorem mirrored_shape_rot_skipped:
  "add_pad_from_xml (rot_only ''pad'' ''MR90'') empty_board = (None, empty_board)
   \<and> add_smd_from_xml (rot_only ''smd'' ''MR90'') empty_board = (None, empty_board)
   \<and> add_rect_from_xml (rot_only ''rectangle'' ''MR90'') = None
   \<and> add_text_from_xml (rot_only ''text'' ''MR90'') empty_board = empty_board
   \<and> fst (add_pad_from_xml (rot_only ''pad'' ''R90'') empty_board) \<noteq> None
   \<and> parse_rot ''MR90'' = Some (- 90)"
  by (simp add: add_pad_from_xml_def pad_of_xml_def add_smd_from_xml_def smd_of_xml_def
        add_rect_from_xml_def add_text_from_xml_def text_of_xml_def shape_rot_of_str_def
        parse_rot_def xml_defs py_defs)

section \<open>Rectangles of a package\<close>

text \<open>
  In \<open>_compute_bounds\<close> the four corners of a package rectangle are mirrored, rotated and
  moved to the placement.
\<close>

lemma rect_bounds_corners:
  "set (shape_coords m a ex ey (SRect r))
     = (\<lambda>(x, y). place a ex ey (mir m x, y)) ` set (local_points (SRect r))"
proof (cases m)
  case True
  then show ?thesis using shape_coords_mirrored [of a ex ey "SRect r"] by (simp add: mir_def)
next
  case False
  then show ?thesis using shape_coords_unmirrored [of a ex ey "SRect r"]
    by (simp add: mir_def)
qed

text \<open>
  Claim C5 says that the drawing path places the same four corners. It rotates the corners
  relative to the rectangle's centre and adds the placement's position, but never the
  rotated centre \<open>abs_cx, abs_cy\<close> it has just computed: the rectangle from \<open>(1, 1)\<close> to
  \<open>(3, 2)\<close> of an unrotated placement at \<open>(10, 20)\<close> has the corners \<open>(11, 21)\<close> to
  \<open>(13, 22)\<close> in the bounds and is drawn around \<open>(10, 20)\<close>.
\<close>

theorem rect_draw_differs_from_bounds:
  "element_coords (one_package_board [SRect (rect_of 1 1 3 2)]) (placement 10 20 ''R0'')
     = Inr [(10, 20), (11, 21), (11, 22), (13, 21), (13, 22)]
   \<and> draw_element_shapes (one_package_board [SRect (rect_of 1 1 3 2)])
        (placement 10 20 ''R0'') {51}
     = Inr [CreatePolygon [(9, 39 / 2), (9, 41 / 2), (11, 39 / 2), (11, 41 / 2)] 51]"
  by (simp add: element_coords_def draw_element_shapes_def parse_rot_def is_mirrored_def
        fixture_defs rect_of_def radians_def place_def mir_def shape_layer_def py_defs)

section \<open>What makes parse fail\<close>

text \<open>
  Claim C6 says that only an unreadable document or a missing root container makes
  \<open>parse\<close> fail, and that a malformed rotation string costs one element. The descriptor of
  a placement is stored as it is and read by \<open>_parse_rot\<close> in \<open>_compute_bounds\<close>, outside
  any \<open>try\<close>: a board file with both containers and one placement whose descriptor is
  \<open>SR90\<close> or \<open>R9O\<close> ends in a \<open>ValueError\<close> and no board, where the same file with
  \<open>R90\<close> gives one.
\<close>

theorem bad_placement_rot_aborts_parse:
  "parse (Document (one_element_file ''SR90'')) = Inl ValueError
   \<and> parse (Document (one_element_file ''R9O'')) = Inl ValueError
   \<and> \<not> isl (parse (Document (one_element_file ''R90'')))"
  by (simp add: parse_def parse_layers_def parse_libraries_def parse_plain_def
        parse_elements_def parse_signals_def compute_bounds_def scan_coords_def
        element_coords_def element_of_xml_def empty_board_def parse_rot_def xml_defs py_defs)

section \<open>Nets and bounds\<close>

lemma fold_nets:
  "foldl (\<lambda>nets x. if f x \<noteq> [] then insert (f x) nets else nets) A xs = A \<union> (f ` set xs - {[]})"
  by (induction xs arbitrary: A) auto

text \<open>
  Claim C9: the set of nets that \<open>_populate_nets\<close> collects is exactly the set of the
  non-empty \<open>net\<close> fields of the board's wires, vias and polygons, and the empty name is
  never in it.
\<close>

theorem populate_nets_exact:
  "populate_nets b
     = (w_net ` set (wires b) \<union> v_net ` set (vias b) \<union> poly_net ` set (polygons b)) - {[]}
   \<and> [] \<notin> populate_nets b"
  by (auto simp: populate_nets_def fold_nets Let_def)

lemma fold_min_Min: "fold_min x xs = Min (insert x (set xs))"
proof (induction xs arbitrary: x)
  case Nil
  show ?case by (simp add: fold_min_def)
next
  case (Cons y ys)
  have step: "fold_min x (y # ys) = fold_min (min x y) ys"
    by (simp add: fold_min_def min_def not_less)
  have "Min (insert (min x y) (set ys)) = Min (insert x (insert y (set ys)))"
    by (cases "set ys = {}") (simp_all add: min.assoc)
  with Cons.IH [of "min x y"] step show ?case by simp
qed

lemma fold_max_Max: "fold_max x xs = Max (insert x (set xs))"
proof (induction xs arbitrary: x)
  case Nil
  show ?case by (simp add: fold_max_def)
next
  case (Cons y ys)
  have step: "fold_max x (y # ys) = fold_max (max x y) ys"
    by (simp add: fold_max_def max_def not_less)
  have "Max (insert (max x y) (set ys)) = Max (insert x (insert y (set ys)))"
    by (cases "set ys = {}") (simp_all add: max.assoc)
  with Cons.IH [of "max x y"] step show ?case by simp
qed

lemma bounds_of_nonempty:
  assumes "pts \<noteq> []"
  shows "bounds_of pts = (Min (fst ` set pts), Min (snd ` set pts),
                          Max (fst ` set pts), Max (snd ` set pts))"
  using assms by (cases pts) (simp_all add: bounds_of_def fold_min_Min fold_max_Max)








lemma demo_board_bounds:
  "map_sum id bounds (compute_bounds demo_board) = Inr (Some (0, 0, 5, 3))"
  by (simp add: demo_board_def wire_of_def fixture_defs compute_bounds_def scan_coords_def
        element_coords_def descriptor_parse [OF float_90, simplified] is_mirrored_def
        radians_90 place_def mir_def bounds_of_def fold_min_def fold_max_def)



section \<open>Invariants of the parser passes\<close>

lemma foldl_preserves:
  assumes "P b" and "\<And>b x. x \<in> set xs \<Longrightarrow> P b \<Longrightarrow> P (f b x)"
  shows "P (foldl f b xs)"
  using assms by (induction xs arbitrary: b) auto

subsection \<open>What the element helpers do to the board\<close>

lemma add_wire_cases:
  "add_wire_from_xml w k b = (None, b)
   \<or> (\<exists>w'. wire_of_xml w k = Some w' \<and> add_wire_from_xml w k b = (Some w', b\<lparr>wires := wires b @ [w']\<rparr>))"
  by (simp add: add_wire_from_xml_def split: option.splits)

lemma add_pad_cases:
  "add_pad_from_xml p b = (None, b)
   \<or> (\<exists>p'. pad_of_xml p = Some p' \<and> add_pad_from_xml p b = (Some p', b\<lparr>pads := pads b @ [p']\<rparr>))"
  by (simp add: add_pad_from_xml_def split: option.splits)

lemma add_smd_cases:
  "add_smd_from_xml s b = (None, b)
   \<or> (\<exists>s'. smd_of_xml s = Some s' \<and> add_smd_from_xml s b = (Some s', b\<lparr>smds := smds b @ [s']\<rparr>))"
  by (simp add: add_smd_from_xml_def split: option.splits)

lemma add_polygon_cases:
  "add_polygon_from_xml p net in_package b = (None, b)
   \<or> (\<exists>q. polygon_of_xml p net = Some q
        \<and> add_polygon_from_xml p net in_package b
            = (Some q, if in_package then b else b\<lparr>polygons := polygons b @ [q]\<rparr>))"
  by (simp add: add_polygon_from_xml_def split: option.splits)

lemma add_via_cases:
  "add_via_from_xml v net b = b \<or> (\<exists>v'. add_via_from_xml v net b = b\<lparr>vias := vias b @ [v']\<rparr>)"
  by (cases "via_of_xml v net") (auto simp: add_via_from_xml_def)

lemma add_text_cases:
  "add_text_from_xml t b = b \<or> (\<exists>t'. add_text_from_xml t b = b\<lparr>texts := texts b @ [t']\<rparr>)"
  by (cases "text_of_xml t") (auto simp: add_text_from_xml_def)

lemma signal_wire_cases:
  "signal_wire name b w = b \<or> (\<exists>w'. signal_wire name b w = b\<lparr>wires := wires b @ [w']\<rparr>)"
  using add_wire_cases [of w "''signal''" b] by (auto simp: signal_wire_def)

subsection \<open>Flat lists that only grow\<close>

lemma flat_grows_refl: "flat_grows b b"
  by (simp add: flat_grows_def)

lemma flat_grows_trans: "flat_grows a b \<Longrightarrow> flat_grows b c \<Longrightarrow> flat_grows a c"
  by (auto simp: flat_grows_def)

lemma flat_grows_foldl:
  assumes "\<And>b x. flat_grows b (f b x)"
  shows "flat_grows b (foldl f b xs)"
proof (induction xs arbitrary: b)
  case Nil
  show ?case by (simp add: flat_grows_refl)
next
  case (Cons x xs)
  from assms [of b x] Cons.IH [of "f b x"] show ?case
    by (simp add: flat_grows_trans)
qed

lemma flat_grows_add_wire: "flat_grows b (snd (add_wire_from_xml w k b))"
  using add_wire_cases [of w k b] by (auto simp: flat_grows_def)

lemma flat_grows_add_pad: "flat_grows b (snd (add_pad_from_xml p b))"
  using add_pad_cases [of p b] by (auto simp: flat_grows_def)

lemma flat_grows_add_smd: "flat_grows b (snd (add_smd_from_xml s b))"
  using add_smd_cases [of s b] by (auto simp: flat_grows_def)

lemma flat_grows_add_polygon: "flat_grows b (snd (add_polygon_from_xml p net ip b))"
  using add_polygon_cases [of p net ip b] by (auto simp: flat_grows_def)

lemma flat_grows_add_via: "flat_grows b (add_via_from_xml v net b)"
  using add_via_cases [of v net b] by (auto simp: flat_grows_def)

lemma flat_grows_add_text: "flat_grows b (add_text_from_xml t b)"
  using add_text_cases [of t b] by (auto simp: flat_grows_def)

lemma flat_grows_signal_wire: "flat_grows b (signal_wire name b w)"
  using signal_wire_cases [of name b w] by (auto simp: flat_grows_def)

lemma flat_grows_parse_plain: "flat_grows b (parse_plain brd b)"
proof (cases "find_child brd ''plain''")
  case None
  then show ?thesis by (simp add: parse_plain_def flat_grows_refl)
next
  case (Some plain)
  define b1 where "b1 = foldl (\<lambda>b w. snd (add_wire_from_xml w ''plain'' b)) b (findall plain ''wire'')"
  define b2 where "b2 = foldl (\<lambda>b p. snd (add_pad_from_xml p b)) b1 (findall plain ''pad'')"
  define b3 where "b3 = foldl (\<lambda>b s. snd (add_smd_from_xml s b)) b2 (findall plain ''smd'')"
  define b4 where "b4 = foldl (\<lambda>b poly. snd (add_polygon_from_xml poly [] False b)) b3
                           (findall plain ''polygon'')"
  define b5 where "b5 = foldl (\<lambda>b t. add_text_from_xml t b) b4 (findall plain ''text'')"
  have 1: "flat_grows b b1" unfolding b1_def by (rule flat_grows_foldl) (rule flat_grows_add_wire)
  have 2: "flat_grows b1 b2" unfolding b2_def by (rule flat_grows_foldl) (rule flat_grows_add_pad)
  have 3: "flat_grows b2 b3" unfolding b3_def by (rule flat_grows_foldl) (rule flat_grows_add_smd)
  have 4: "flat_grows b3 b4" unfolding b4_def
    by (rule flat_grows_foldl) (rule flat_grows_add_polygon)
  have 5: "flat_grows b4 b5" unfolding b5_def by (rule flat_grows_foldl) (rule flat_grows_add_text)
  have "parse_plain brd b = b5"
    by (simp add: parse_plain_def Some Let_def b1_def b2_def b3_def b4_def b5_def)
  with 1 2 3 4 5 show ?thesis by (metis flat_grows_trans)
qed

lemma flat_grows_parse_elements: "flat_grows b (parse_elements brd b)"
proof (cases "find_child brd ''elements''")
  case None
  then show ?thesis by (simp add: parse_elements_def flat_grows_refl)
next
  case (Some els)
  show ?thesis
    unfolding parse_elements_def Some option.case
    by (rule flat_grows_foldl) (simp add: flat_grows_def split: option.splits)
qed

lemma flat_grows_parse_signal: "flat_grows b (parse_signal b s)"
proof -
  define name where "name = get s ''name'' []"
  define b1 where "b1 = foldl (signal_wire name) b (findall s ''wire'')"
  define b2 where "b2 = foldl (\<lambda>b v. add_via_from_xml v name b) b1 (findall s ''via'')"
  define b3 where "b3 = foldl (\<lambda>b poly. snd (add_polygon_from_xml poly name False b)) b2
                           (findall s ''polygon'')"
  have 1: "flat_grows b b1" unfolding b1_def
    by (rule flat_grows_foldl) (rule flat_grows_signal_wire)
  have 2: "flat_grows b1 b2" unfolding b2_def by (rule flat_grows_foldl) (rule flat_grows_add_via)
  have 3: "flat_grows b2 b3" unfolding b3_def
    by (rule flat_grows_foldl) (rule flat_grows_add_polygon)
  have "parse_signal b s = b3"
    by (simp add: parse_signal_def Let_def name_def b1_def b2_def b3_def)
  with 1 2 3 show ?thesis by (metis flat_grows_trans)
qed

lemma flat_grows_parse_signals: "flat_grows b (parse_signals brd b)"
proof (cases "find_child brd ''signals''")
  case None
  then show ?thesis by (simp add: parse_signals_def flat_grows_refl)
next
  case (Some signals)
  show ?thesis
    unfolding parse_signals_def Some option.case
    by (rule flat_grows_foldl) (rule flat_grows_parse_signal)
qed

lemma flat_grows_compute_bounds: "compute_bounds b = Inr b' \<Longrightarrow> flat_grows b b'"
  by (auto simp: compute_bounds_def flat_grows_def split: sum.splits)

subsection \<open>The shapes of a package\<close>

lemma shapes_flat_grows: "shapes_flat shapes b \<Longrightarrow> flat_grows b b' \<Longrightarrow> shapes_flat shapes b'"
  by (auto simp: shapes_flat_def flat_grows_def)

lemma packages_flat_grows:
  assumes "packages_flat b" and "flat_grows b b'"
  shows "packages_flat b'"
  unfolding packages_flat_def
proof (intro allI impI)
  fix name shapes
  assume "packages b' name = Some shapes"
  with assms(2) have "packages b name = Some shapes" by (simp add: flat_grows_def)
  with assms(1) have "shapes_flat shapes b" by (simp add: packages_flat_def)
  from this assms(2) show "shapes_flat shapes b'" by (rule shapes_flat_grows)
qed

lemma package_inv_start: "package_inv b ([], b)"
  by (simp add: package_inv_def shapes_flat_def flat_grows_refl)

lemma shapes_flat_wire:
  assumes "shapes_flat shapes b" and "wire_of_xml el ''package'' = Some w"
  shows "shapes_flat (shapes @ [SWire w]) (b\<lparr>wires := wires b @ [w]\<rparr>)"
  using assms unfolding shapes_flat_def by auto

lemma shapes_flat_pad:
  assumes "shapes_flat shapes b" and "pad_of_xml el = Some p"
  shows "shapes_flat (shapes @ [SPad p]) (b\<lparr>pads := pads b @ [p]\<rparr>)"
  using assms unfolding shapes_flat_def by auto

lemma shapes_flat_smd:
  assumes "shapes_flat shapes b" and "smd_of_xml el = Some s"
  shows "shapes_flat (shapes @ [SSMD s]) (b\<lparr>smds := smds b @ [s]\<rparr>)"
  using assms unfolding shapes_flat_def by auto

lemma shapes_flat_other:
  assumes "shapes_flat shapes b"
  shows "shapes_flat (shapes @ [SCircle c]) b" and "shapes_flat (shapes @ [SRect r]) b"
    and "shapes_flat (shapes @ [SPolygon q]) b"
  using assms unfolding shapes_flat_def by auto

lemma flat_grows_more:
  assumes "flat_grows b0 b"
  shows "flat_grows b0 (b\<lparr>wires := wires b @ [w]\<rparr>)" and "flat_grows b0 (b\<lparr>pads := pads b @ [p]\<rparr>)"
    and "flat_grows b0 (b\<lparr>smds := smds b @ [s]\<rparr>)"
  using assms unfolding flat_grows_def by auto

lemma package_inv_wires:
  assumes "package_inv b0 sb"
  shows "package_inv b0 (package_wires els sb)"
  unfolding package_wires_def
  apply (rule foldl_preserves [where P = "package_inv b0", OF assms])
  subgoal for sb w
    using add_wire_cases [of w "''package''" "snd sb"]
    by (cases sb) (auto simp: package_inv_def intro: shapes_flat_wire flat_grows_more)
  done

lemma package_inv_pads:
  assumes "package_inv b0 sb"
  shows "package_inv b0 (package_pads els sb)"
  unfolding package_pads_def
  apply (rule foldl_preserves [where P = "package_inv b0", OF assms])
  subgoal for sb p
    using add_pad_cases [of p "snd sb"]
    by (cases sb) (auto simp: package_inv_def intro: shapes_flat_pad flat_grows_more)
  done

lemma package_inv_smds:
  assumes "package_inv b0 sb"
  shows "package_inv b0 (package_smds els sb)"
  unfolding package_smds_def
  apply (rule foldl_preserves [where P = "package_inv b0", OF assms])
  subgoal for sb s
    using add_smd_cases [of s "snd sb"]
    by (cases sb) (auto simp: package_inv_def intro: shapes_flat_smd flat_grows_more)
  done

lemma package_inv_circles:
  assumes "package_inv b0 sb"
  shows "package_inv b0 (package_circles els sb)"
  unfolding package_circles_def
  apply (rule foldl_preserves [where P = "package_inv b0", OF assms])
  subgoal for sb c
    by (cases sb) (auto simp: package_inv_def intro: shapes_flat_other split: option.splits)
  done

lemma package_inv_rects:
  assumes "package_inv b0 sb"
  shows "package_inv b0 (package_rects els sb)"
  unfolding package_rects_def
  apply (rule foldl_preserves [where P = "package_inv b0", OF assms])
  subgoal for sb r
    by (cases sb) (auto simp: package_inv_def intro: shapes_flat_other split: option.splits)
  done

lemma package_inv_polygons:
  assumes "package_inv b0 sb"
  shows "package_inv b0 (package_polygons els sb)"
  unfolding package_polygons_def
  apply (rule foldl_preserves [where P = "package_inv b0", OF assms])
  subgoal for sb p
    using add_polygon_cases [of p "''''" True "snd sb"]
    by (cases sb) (auto simp: package_inv_def intro: shapes_flat_other)
  done

lemma package_inv_shapes: "package_inv b (package_shapes pkg b)"
  unfolding package_shapes_def
  by (intro package_inv_polygons package_inv_rects package_inv_circles package_inv_smds
        package_inv_pads package_inv_wires package_inv_start)

lemma parse_package_flat:
  assumes "packages_flat b"
  shows "packages_flat (parse_package b pkg) \<and> polygons (parse_package b pkg) = polygons b"
proof -
  obtain shapes b' where ps: "package_shapes pkg b = (shapes, b')" by (cases "package_shapes pkg b")
  with package_inv_shapes [of b pkg]
  have sf: "shapes_flat shapes b'" and g: "flat_grows b b'" and pg: "polygons b' = polygons b"
    by (simp_all add: package_inv_def)
  from packages_flat_grows [OF assms g] have pf: "packages_flat b'" .
  let ?b = "b'\<lparr>packages := (packages b')(get pkg ''name'' '''' \<mapsto> shapes)\<rparr>"
  have same: "\<And>sh. shapes_flat sh ?b = shapes_flat sh b'" by (simp add: shapes_flat_def)
  have "packages_flat ?b"
    using pf sf by (auto simp: packages_flat_def same)
  with pg ps show ?thesis by (simp add: parse_package_def)
qed

lemma parse_library_flat:
  assumes "packages_flat b"
  shows "packages_flat (parse_library b lib) \<and> polygons (parse_library b lib) = polygons b"
proof (cases "find_child lib ''packages''")
  case None
  with assms show ?thesis by (simp add: parse_library_def)
next
  case (Some pkgs)
  have "packages_flat (foldl parse_package b (findall pkgs ''package''))
        \<and> polygons (foldl parse_package b (findall pkgs ''package'')) = polygons b"
    by (rule foldl_preserves [where P = "\<lambda>b'. packages_flat b' \<and> polygons b' = polygons b"])
       (use assms parse_package_flat in auto)
  with Some show ?thesis by (simp add: parse_library_def)
qed

lemma parse_libraries_flat:
  assumes "packages_flat b"
  shows "packages_flat (parse_libraries brd b) \<and> polygons (parse_libraries brd b) = polygons b"
proof (cases "find_child brd ''libraries''")
  case None
  with assms show ?thesis by (simp add: parse_libraries_def)
next
  case (Some libs)
  have "packages_flat (foldl parse_library b (findall libs ''library''))
        \<and> polygons (foldl parse_library b (findall libs ''library'')) = polygons b"
    by (rule foldl_preserves [where P = "\<lambda>b'. packages_flat b' \<and> polygons b' = polygons b"])
       (use assms parse_library_flat in auto)
  with Some show ?thesis by (simp add: parse_libraries_def)
qed

subsection \<open>The flat polygon list\<close>

lemma polygons_parse_package: "polygons (parse_package b pkg) = polygons b"
proof -
  obtain shapes b' where ps: "package_shapes pkg b = (shapes, b')" by (cases "package_shapes pkg b")
  with package_inv_shapes [of b pkg] have "polygons b' = polygons b"
    by (simp add: package_inv_def)
  with ps show ?thesis by (simp add: parse_package_def)
qed

lemma polygons_parse_library: "polygons (parse_library b lib) = polygons b"
proof (cases "find_child lib ''packages''")
  case None
  then show ?thesis by (simp add: parse_library_def)
next
  case (Some pkgs)
  have "polygons (foldl parse_package b (findall pkgs ''package'')) = polygons b"
    by (rule foldl_preserves [where P = "\<lambda>b'. polygons b' = polygons b"])
       (simp_all add: polygons_parse_package)
  with Some show ?thesis by (simp add: parse_library_def)
qed

lemma polygons_parse_libraries: "polygons (parse_libraries brd b) = polygons b"
proof (cases "find_child brd ''libraries''")
  case None
  then show ?thesis by (simp add: parse_libraries_def)
next
  case (Some libs)
  have "polygons (foldl parse_library b (findall libs ''library'')) = polygons b"
    by (rule foldl_preserves [where P = "\<lambda>b'. polygons b' = polygons b"])
       (simp_all add: polygons_parse_library)
  with Some show ?thesis by (simp add: parse_libraries_def)
qed

lemma polygons_parse_layers: "polygons (parse_layers drawing b) = polygons b"
proof (cases "find_child drawing ''layers''")
  case None
  then show ?thesis by (simp add: parse_layers_def)
next
  case (Some ls)
  show ?thesis
    unfolding parse_layers_def Some option.case
    by (rule foldl_preserves [where P = "\<lambda>b'. polygons b' = polygons b"])
       (simp_all split: option.splits)
qed

lemma flat_grows_parse_layers: "flat_grows b (parse_layers drawing b)"
proof (cases "find_child drawing ''layers''")
  case None
  then show ?thesis by (simp add: parse_layers_def flat_grows_refl)
next
  case (Some ls)
  show ?thesis
    unfolding parse_layers_def Some option.case
    by (rule flat_grows_foldl) (simp add: flat_grows_def split: option.splits)
qed

lemma polygons_parse_elements: "polygons (parse_elements brd b) = polygons b"
proof (cases "find_child brd ''elements''")
  case None
  then show ?thesis by (simp add: parse_elements_def)
next
  case (Some els)
  show ?thesis
    unfolding parse_elements_def Some option.case
    by (rule foldl_preserves [where P = "\<lambda>b'. polygons b' = polygons b"])
       (simp_all split: option.splits)
qed

lemma polygons_compute_bounds: "compute_bounds b = Inr b' \<Longrightarrow> polygons b' = polygons b"
  by (auto simp: compute_bounds_def split: sum.splits)

lemma polygons_from_frame: "polygons b' = polygons b \<Longrightarrow> polygons_from S b \<Longrightarrow> polygons_from S b'"
  by (simp add: polygons_from_def)

lemma polygons_from_add:
  assumes "polygons_from S b" and "(p, net) \<in> S"
  shows "polygons_from S (snd (add_polygon_from_xml p net False b))"
proof -
  from add_polygon_cases [of p net False b] show ?thesis
  proof
    assume "add_polygon_from_xml p net False b = (None, b)"
    with assms(1) show ?thesis by simp
  next
    assume "\<exists>q. polygon_of_xml p net = Some q
        \<and> add_polygon_from_xml p net False b
            = (Some q, if False then b else b\<lparr>polygons := polygons b @ [q]\<rparr>)"
    then obtain q where q: "polygon_of_xml p net = Some q"
      and r: "add_polygon_from_xml p net False b = (Some q, b\<lparr>polygons := polygons b @ [q]\<rparr>)"
      by auto
    from q assms(2) have "\<exists>(p, net) \<in> S. polygon_of_xml p net = Some q" by blast
    with assms(1) show ?thesis unfolding r polygons_from_def by auto
  qed
qed

lemma polygons_add_wire: "polygons (snd (add_wire_from_xml w k b)) = polygons b"
  using add_wire_cases [of w k b] by auto

lemma polygons_add_pad: "polygons (snd (add_pad_from_xml p b)) = polygons b"
  using add_pad_cases [of p b] by auto

lemma polygons_add_smd: "polygons (snd (add_smd_from_xml s b)) = polygons b"
  using add_smd_cases [of s b] by auto

lemma polygons_add_via: "polygons (add_via_from_xml v net b) = polygons b"
  using add_via_cases [of v net b] by auto

lemma polygons_add_text: "polygons (add_text_from_xml t b) = polygons b"
  using add_text_cases [of t b] by auto

lemma polygons_signal_wire: "polygons (signal_wire name b w) = polygons b"
  using signal_wire_cases [of name b w] by auto

lemma polygons_from_parse_plain:
  assumes "polygons_from S b"
    and "\<And>plain p. find_child brd ''plain'' = Some plain \<Longrightarrow> p \<in> set (findall plain ''polygon'')
           \<Longrightarrow> (p, []) \<in> S"
  shows "polygons_from S (parse_plain brd b)"
proof (cases "find_child brd ''plain''")
  case None
  with assms(1) show ?thesis by (simp add: parse_plain_def)
next
  case (Some plain)
  let ?P = "polygons_from S"
  define b1 where "b1 = foldl (\<lambda>b w. snd (add_wire_from_xml w ''plain'' b)) b (findall plain ''wire'')"
  define b2 where "b2 = foldl (\<lambda>b p. snd (add_pad_from_xml p b)) b1 (findall plain ''pad'')"
  define b3 where "b3 = foldl (\<lambda>b s. snd (add_smd_from_xml s b)) b2 (findall plain ''smd'')"
  define b4 where "b4 = foldl (\<lambda>b poly. snd (add_polygon_from_xml poly [] False b)) b3
                           (findall plain ''polygon'')"
  define b5 where "b5 = foldl (\<lambda>b t. add_text_from_xml t b) b4 (findall plain ''text'')"
  have 1: "?P b1" unfolding b1_def
    by (rule foldl_preserves [where P = ?P, OF assms(1)])
       (rule polygons_from_frame [OF polygons_add_wire])
  have 2: "?P b2" unfolding b2_def
    by (rule foldl_preserves [where P = ?P, OF 1])
       (rule polygons_from_frame [OF polygons_add_pad])
  have 3: "?P b3" unfolding b3_def
    by (rule foldl_preserves [where P = ?P, OF 2])
       (rule polygons_from_frame [OF polygons_add_smd])
  have 4: "?P b4" unfolding b4_def
    by (rule foldl_preserves [where P = ?P, OF 3])
       (rule polygons_from_add, assumption, rule assms(2) [OF Some])
  have 5: "?P b5" unfolding b5_def
    by (rule foldl_preserves [where P = ?P, OF 4])
       (rule polygons_from_frame [OF polygons_add_text])
  have "parse_plain brd b = b5"
    by (simp add: parse_plain_def Some Let_def b1_def b2_def b3_def b4_def b5_def)
  with 5 show ?thesis by simp
qed

lemma polygons_from_parse_signal:
  assumes "polygons_from S b"
    and "\<And>p. p \<in> set (findall s ''polygon'') \<Longrightarrow> (p, get s ''name'' []) \<in> S"
  shows "polygons_from S (parse_signal b s)"
proof -
  let ?P = "polygons_from S"
  define name where "name = get s ''name'' []"
  define b1 where "b1 = foldl (signal_wire name) b (findall s ''wire'')"
  define b2 where "b2 = foldl (\<lambda>b v. add_via_from_xml v name b) b1 (findall s ''via'')"
  define b3 where "b3 = foldl (\<lambda>b poly. snd (add_polygon_from_xml poly name False b)) b2
                           (findall s ''polygon'')"
  have 1: "?P b1" unfolding b1_def
    by (rule foldl_preserves [where P = ?P, OF assms(1)])
       (rule polygons_from_frame [OF polygons_signal_wire])
  have 2: "?P b2" unfolding b2_def
    by (rule foldl_preserves [where P = ?P, OF 1])
       (rule polygons_from_frame [OF polygons_add_via])
  have 3: "?P b3" unfolding b3_def
    by (rule foldl_preserves [where P = ?P, OF 2])
       (rule polygons_from_add, assumption, unfold name_def, rule assms(2))
  have "parse_signal b s = b3"
    by (simp add: parse_signal_def Let_def name_def b1_def b2_def b3_def)
  with 3 show ?thesis by simp
qed

lemma polygons_from_parse_signals:
  assumes "polygons_from S b"
    and "\<And>signals s p. find_child brd ''signals'' = Some signals
           \<Longrightarrow> s \<in> set (findall signals ''signal'') \<Longrightarrow> p \<in> set (findall s ''polygon'')
           \<Longrightarrow> (p, get s ''name'' []) \<in> S"
  shows "polygons_from S (parse_signals brd b)"
proof (cases "find_child brd ''signals''")
  case None
  with assms(1) show ?thesis by (simp add: parse_signals_def)
next
  case (Some signals)
  show ?thesis
    unfolding parse_signals_def Some option.case
    by (rule foldl_preserves [where P = "polygons_from S", OF assms(1)])
       (rule polygons_from_parse_signal, assumption, rule assms(2) [OF Some])
qed

lemma plain_source:
  "find_child brd ''plain'' = Some plain \<Longrightarrow> p \<in> set (findall plain ''polygon'')
   \<Longrightarrow> (p, []) \<in> flat_polygon_sources brd"
  by (simp add: flat_polygon_sources_def)

lemma signal_source:
  "find_child brd ''signals'' = Some signals \<Longrightarrow> s \<in> set (findall signals ''signal'')
   \<Longrightarrow> p \<in> set (findall s ''polygon'') \<Longrightarrow> (p, get s ''name'' []) \<in> flat_polygon_sources brd"
  by (auto simp: flat_polygon_sources_def)

subsection \<open>The board that parse returns\<close>

lemma parse_Inr_document:
  assumes "parse src = Inr b"
  obtains root_el drawing brd where "src = Document root_el"
    and "find_child root_el ''drawing'' = Some drawing"
    and "find_child drawing ''board'' = Some brd"
  using assms by (auto simp: parse_def split: source.splits option.splits)

lemma parse_result_inv:
  assumes "find_child root_el ''drawing'' = Some drawing"
    and "find_child drawing ''board'' = Some brd"
    and "parse (Document root_el) = Inr b"
  shows "packages_flat b \<and> polygons_from (flat_polygon_sources brd) b"
proof -
  let ?S = "flat_polygon_sources brd"
  define b1 where "b1 = parse_layers drawing empty_board"
  define b2 where "b2 = parse_libraries brd b1"
  define b3 where "b3 = parse_plain brd b2"
  define b4 where "b4 = parse_elements brd b3"
  define b5 where "b5 = parse_signals brd b4"
  from assms have cb: "compute_bounds b5 = Inr b"
    by (simp add: parse_def b1_def b2_def b3_def b4_def b5_def)
  have "packages_flat empty_board" by (simp add: packages_flat_def empty_board_def)
  then have "packages_flat b1" unfolding b1_def
    by (rule packages_flat_grows) (rule flat_grows_parse_layers)
  then have "packages_flat b2" unfolding b2_def by (simp add: parse_libraries_flat)
  then have "packages_flat b3" unfolding b3_def
    by (rule packages_flat_grows) (rule flat_grows_parse_plain)
  then have "packages_flat b4" unfolding b4_def
    by (rule packages_flat_grows) (rule flat_grows_parse_elements)
  then have "packages_flat b5" unfolding b5_def
    by (rule packages_flat_grows) (rule flat_grows_parse_signals)
  then have pf: "packages_flat b"
    by (rule packages_flat_grows) (rule flat_grows_compute_bounds [OF cb])
  have "polygons b2 = []"
    by (simp add: b2_def b1_def polygons_parse_libraries polygons_parse_layers empty_board_def)
  then have "polygons_from ?S b2" by (simp add: polygons_from_def)
  then have "polygons_from ?S b3" unfolding b3_def
    by (rule polygons_from_parse_plain) (rule plain_source)
  then have "polygons_from ?S b4" unfolding b4_def
    by (rule polygons_from_frame [OF polygons_parse_elements])
  then have "polygons_from ?S b5" unfolding b5_def
    by (rule polygons_from_parse_signals) (rule signal_source)
  then have "polygons_from ?S b"
    by (rule polygons_from_frame [OF polygons_compute_bounds [OF cb]])
  with pf show ?thesis ..
qed

lemma polygon_of_xml_flags:
  assumes "polygon_of_xml p net = Some q"
  shows "poly_net q = net" and "poly_is_outline q = (poly_layer q = 20)"
    and "poly_fill q = (poly_net q \<noteq> [] \<and> \<not> poly_is_outline q)"
    and "length (poly_vertices q) > 2"
  using assms
  by (auto simp: polygon_of_xml_def Let_def split: Option.bind_splits if_splits)

subsection \<open>Declared wires, pads and smds reach the flat lists\<close>

lemma foldl_establishes:
  assumes est: "\<And>s. Q x (f s x)" and pres: "\<And>s y. Q x s \<Longrightarrow> Q x (f s y)"
    and x: "x \<in> set xs"
  shows "Q x (foldl f s xs)"
  using x
proof (induction xs arbitrary: s)
  case Nil
  then show ?case by simp
next
  case (Cons y ys)
  show ?case
  proof (cases "x = y")
    case True
    have "Q x (foldl f (f s x) ys)"
      by (rule foldl_preserves [where P = "Q x"]) (rule est, rule pres)
    with True show ?thesis by simp
  next
    case False
    with Cons.prems have "x \<in> set ys" by simp
    from Cons.IH [OF this] show ?thesis by simp
  qed
qed

lemma flat_grows_lists: "flat_grows b b' \<Longrightarrow> lists_grow b b'"
  by (simp add: flat_grows_def lists_grow_def)

lemma lists_grow_refl: "lists_grow b b"
  by (simp add: lists_grow_def)

lemma lists_grow_trans: "lists_grow a b \<Longrightarrow> lists_grow b c \<Longrightarrow> lists_grow a c"
  by (auto simp: lists_grow_def)

lemma lists_grow_foldl:
  assumes "\<And>b x. lists_grow b (f b x)"
  shows "lists_grow b (foldl f b xs)"
proof (induction xs arbitrary: b)
  case Nil
  show ?case by (simp add: lists_grow_refl)
next
  case (Cons x xs)
  from assms [of b x] Cons.IH [of "f b x"] show ?case
    by (simp add: lists_grow_trans)
qed

lemma declared_flat_grows: "declared_flat pkg b \<Longrightarrow> lists_grow b b' \<Longrightarrow> declared_flat pkg b'"
  unfolding declared_flat_def lists_grow_def by blast

lemma package_inv_restart: "package_inv b0 sb \<Longrightarrow> package_inv (snd sb) sb"
  by (simp add: package_inv_def flat_grows_refl)

lemma package_wires_declared:
  assumes "el \<in> set els"
  shows "\<forall>w. wire_of_xml el ''package'' = Some w
           \<longrightarrow> w \<in> set (wires (snd (package_wires els sb)))"
  unfolding package_wires_def
  apply (rule foldl_establishes [where Q = "\<lambda>el sb. \<forall>w. wire_of_xml el ''package'' = Some w
            \<longrightarrow> w \<in> set (wires (snd sb))", OF _ _ assms])
  subgoal for sb
    by (cases sb) (auto simp: add_wire_from_xml_def)
  subgoal for sb y
    using add_wire_cases [of y "''package''" "snd sb"] by (cases sb) auto
  done

lemma package_pads_declared:
  assumes "el \<in> set els"
  shows "\<forall>p. pad_of_xml el = Some p \<longrightarrow> p \<in> set (pads (snd (package_pads els sb)))"
  unfolding package_pads_def
  apply (rule foldl_establishes [where Q = "\<lambda>el sb. \<forall>p. pad_of_xml el = Some p
            \<longrightarrow> p \<in> set (pads (snd sb))", OF _ _ assms])
  subgoal for sb
    by (cases sb) (auto simp: add_pad_from_xml_def)
  subgoal for sb y
    using add_pad_cases [of y "snd sb"] by (cases sb) auto
  done

lemma package_smds_declared:
  assumes "el \<in> set els"
  shows "\<forall>s. smd_of_xml el = Some s \<longrightarrow> s \<in> set (smds (snd (package_smds els sb)))"
  unfolding package_smds_def
  apply (rule foldl_establishes [where Q = "\<lambda>el sb. \<forall>s. smd_of_xml el = Some s
            \<longrightarrow> s \<in> set (smds (snd sb))", OF _ _ assms])
  subgoal for sb
    by (cases sb) (auto simp: add_smd_from_xml_def)
  subgoal for sb y
    using add_smd_cases [of y "snd sb"] by (cases sb) auto
  done

lemma parse_package_declared:
  "declared_flat pkg (parse_package b pkg) \<and> lists_grow b (parse_package b pkg)"
proof -
  define sb1 where "sb1 = package_wires (findall pkg ''wire'') ([], b)"
  define sb2 where "sb2 = package_pads (findall pkg ''pad'') sb1"
  define sb3 where "sb3 = package_smds (findall pkg ''smd'') sb2"
  define sb4 where "sb4 = package_circles (findall pkg ''circle'') sb3"
  define sb5 where "sb5 = package_rects (findall pkg ''rectangle'') sb4"
  define sb6 where "sb6 = package_polygons (findall pkg ''polygon'') sb5"
  have ps: "package_shapes pkg b = sb6"
    by (simp add: package_shapes_def sb1_def sb2_def sb3_def sb4_def sb5_def sb6_def)
  have i1: "package_inv b sb1" unfolding sb1_def
    by (rule package_inv_wires) (rule package_inv_start)
  have i2: "package_inv b sb2" unfolding sb2_def by (rule package_inv_pads) (rule i1)
  have i3: "package_inv b sb3" unfolding sb3_def by (rule package_inv_smds) (rule i2)
  have i6: "package_inv b sb6" unfolding sb6_def sb5_def sb4_def
    by (intro package_inv_polygons package_inv_rects package_inv_circles i3)
  have g12: "lists_grow (snd sb1) (snd sb2)" unfolding sb2_def
    using package_inv_pads [OF package_inv_restart [OF i1]]
    by (simp add: package_inv_def flat_grows_lists)
  have g23: "lists_grow (snd sb2) (snd sb3)" unfolding sb3_def
    using package_inv_smds [OF package_inv_restart [OF i2]]
    by (simp add: package_inv_def flat_grows_lists)
  have g36: "lists_grow (snd sb3) (snd sb6)" unfolding sb6_def sb5_def sb4_def
    using package_inv_polygons [OF package_inv_rects [OF package_inv_circles
            [OF package_inv_restart [OF i3]]]]
    by (simp add: package_inv_def flat_grows_lists)
  have g26: "lists_grow (snd sb2) (snd sb6)" using g23 g36 by (rule lists_grow_trans)
  have g16: "lists_grow (snd sb1) (snd sb6)" using g12 g26 by (rule lists_grow_trans)
  have g06: "lists_grow b (snd sb6)" using i6 by (simp add: package_inv_def flat_grows_lists)
  have w: "\<forall>el \<in> set (findall pkg ''wire''). \<forall>w. wire_of_xml el ''package'' = Some w
             \<longrightarrow> w \<in> set (wires (snd sb6))"
    using package_wires_declared [of _ "findall pkg ''wire''" "([], b)"] g16
    unfolding sb1_def [symmetric] lists_grow_def by blast
  have p: "\<forall>el \<in> set (findall pkg ''pad''). \<forall>p. pad_of_xml el = Some p
             \<longrightarrow> p \<in> set (pads (snd sb6))"
    using package_pads_declared [of _ "findall pkg ''pad''" sb1] g26
    unfolding sb2_def [symmetric] lists_grow_def by blast
  have s: "\<forall>el \<in> set (findall pkg ''smd''). \<forall>s. smd_of_xml el = Some s
             \<longrightarrow> s \<in> set (smds (snd sb6))"
    using package_smds_declared [of _ "findall pkg ''smd''" sb2] g36
    unfolding sb3_def [symmetric] lists_grow_def by blast
  have pp: "wires (parse_package b pkg) = wires (snd sb6)"
    "pads (parse_package b pkg) = pads (snd sb6)" "smds (parse_package b pkg) = smds (snd sb6)"
    by (simp_all add: parse_package_def ps split_beta)
  from w p s g06 show ?thesis
    unfolding declared_flat_def lists_grow_def pp by simp
qed

lemma parse_library_grows: "lists_grow b (parse_library b lib)"
proof (cases "find_child lib ''packages''")
  case None
  then show ?thesis by (simp add: parse_library_def lists_grow_refl)
next
  case (Some pkgs)
  show ?thesis unfolding parse_library_def Some option.case
    by (rule lists_grow_foldl) (simp add: parse_package_declared)
qed

lemma parse_library_declared:
  assumes "find_child lib ''packages'' = Some pkgs" and "pkg \<in> set (findall pkgs ''package'')"
  shows "declared_flat pkg (parse_library b lib)"
  unfolding parse_library_def assms(1) option.case
  by (rule foldl_establishes [where Q = declared_flat, OF _ _ assms(2)])
     (simp add: parse_package_declared,
      rule declared_flat_grows, assumption, simp add: parse_package_declared)

lemma parse_libraries_declared:
  assumes "pkg \<in> set (library_packages brd)"
  shows "declared_flat pkg (parse_libraries brd b)"
proof -
  from assms obtain libs lib pkgs where libs: "find_child brd ''libraries'' = Some libs"
    and lib: "lib \<in> set (findall libs ''library'')"
    and pkgs: "find_child lib ''packages'' = Some pkgs"
    and pkg: "pkg \<in> set (findall pkgs ''package'')"
    by (auto simp: library_packages_def split: option.splits) metis
  let ?Q = "\<lambda>lib b. \<forall>pkgs pkg. find_child lib ''packages'' = Some pkgs
             \<longrightarrow> pkg \<in> set (findall pkgs ''package'') \<longrightarrow> declared_flat pkg b"
  have "?Q lib (foldl parse_library b (findall libs ''library''))"
  proof (rule foldl_establishes [where Q = ?Q, OF _ _ lib])
    fix s show "?Q lib (parse_library s lib)"
      using parse_library_declared by blast
  next
    fix s y assume "?Q lib s"
    then show "?Q lib (parse_library s y)"
      using declared_flat_grows [OF _ parse_library_grows] by blast
  qed
  with pkgs pkg libs show ?thesis by (simp add: parse_libraries_def)
qed

lemma parse_declared:
  assumes "find_child root_el ''drawing'' = Some drawing"
    and "find_child drawing ''board'' = Some brd"
    and "parse (Document root_el) = Inr b"
    and "pkg \<in> set (library_packages brd)"
  shows "declared_flat pkg b"
proof -
  define b1 where "b1 = parse_layers drawing empty_board"
  define b2 where "b2 = parse_libraries brd b1"
  define b3 where "b3 = parse_plain brd b2"
  define b4 where "b4 = parse_elements brd b3"
  define b5 where "b5 = parse_signals brd b4"
  from assms(1-3) have cb: "compute_bounds b5 = Inr b"
    by (simp add: parse_def b1_def b2_def b3_def b4_def b5_def)
  have "declared_flat pkg b2" unfolding b2_def by (rule parse_libraries_declared [OF assms(4)])
  then have "declared_flat pkg b3" unfolding b3_def
    by (rule declared_flat_grows) (rule flat_grows_lists [OF flat_grows_parse_plain])
  then have "declared_flat pkg b4" unfolding b4_def
    by (rule declared_flat_grows) (rule flat_grows_lists [OF flat_grows_parse_elements])
  then have "declared_flat pkg b5" unfolding b5_def
    by (rule declared_flat_grows) (rule flat_grows_lists [OF flat_grows_parse_signals])
  then show ?thesis
    by (rule declared_flat_grows) (rule flat_grows_lists [OF flat_grows_compute_bounds [OF cb]])
qed

subsection \<open>Evaluating the example files\<close>

lemma tag_triangle: "el_tag (triangle l) = ''polygon''"
  by (simp add: triangle_def)

lemma triangle_20:
  "polygon_of_xml (triangle ''20'') net
     = Some \<lparr>poly_vertices = [(0, 0), (4, 0), (0, 3)], poly_layer = 20, poly_width = 1 / 10,
             poly_net = net, poly_fill = False, poly_is_outline = True\<rparr>"
  by (simp add: polygon_of_xml_def triangle_def leaf_def xml_defs py_defs)

lemma triangle_1:
  "polygon_of_xml (triangle ''1'') net
     = Some \<lparr>poly_vertices = [(0, 0), (4, 0), (0, 3)], poly_layer = 1, poly_width = 1 / 10,
             poly_net = net, poly_fill = (net \<noteq> []), poly_is_outline = False\<rparr>"
  by (simp add: polygon_of_xml_def triangle_def leaf_def xml_defs py_defs)

lemma triangle_21:
  "polygon_of_xml (triangle ''21'') []
     = Some \<lparr>poly_vertices = [(0, 0), (4, 0), (0, 3)], poly_layer = 21, poly_width = 1 / 10,
             poly_net = [], poly_fill = False, poly_is_outline = False\<rparr>"
  by (simp add: polygon_of_xml_def triangle_def leaf_def xml_defs py_defs)

lemma lib_tags:
  "el_tag lib_wire = ''wire''" "el_tag lib_pad = ''pad''" "el_tag lib_smd = ''smd''"
  "el_tag lib_circle = ''circle''" "el_tag lib_rect = ''rectangle''"
  by (simp_all add: lib_wire_def lib_pad_def lib_smd_def lib_circle_def lib_rect_def leaf_def)

lemma lib_wire_parsed:
  "wire_of_xml lib_wire ''package''
     = Some \<lparr>w_x1 = 1, w_y1 = 1, w_x2 = 2, w_y2 = 1, w_width = 1 / 10, w_layer = 21,
             w_kind = ''package'', w_net = []\<rparr>"
  by (simp add: wire_of_xml_def lib_wire_def leaf_def xml_defs py_defs)

lemma lib_pad_parsed:
  "pad_of_xml lib_pad
     = Some \<lparr>p_name = ''P1'', p_x = 3, p_y = 0, p_drill = 0, p_diameter = 0, p_dx = 0,
             p_dy = 0, p_shape = ''round'', p_layer = 0, p_rot = 0\<rparr>"
  by (simp add: pad_of_xml_def shape_rot_of_str_def lib_pad_def leaf_def xml_defs py_defs)

lemma lib_smd_parsed:
  "smd_of_xml lib_smd
     = Some \<lparr>s_name = ''S1'', s_x = - 3, s_y = 0, s_dx = 0, s_dy = 0, s_layer = 1,
             s_roundness = 0, s_rot = 0\<rparr>"
  by (simp add: smd_of_xml_def shape_rot_of_str_def lib_smd_def leaf_def xml_defs py_defs)

lemma lib_circle_parsed:
  "add_circle_from_xml lib_circle
     = Some \<lparr>c_x = 0, c_y = 0, c_radius = 1, c_width = 1 / 10, c_layer = 21\<rparr>"
  by (simp add: add_circle_from_xml_def lib_circle_def leaf_def xml_defs py_defs)

lemma lib_rect_parsed:
  "add_rect_from_xml lib_rect
     = Some \<lparr>r_x1 = - 1, r_y1 = - 1, r_x2 = 1, r_y2 = 1, r_layer = 21, r_rot = 0\<rparr>"
  by (simp add: add_rect_from_xml_def shape_rot_of_str_def lib_rect_def leaf_def xml_defs py_defs)

lemma compute_bounds_no_elements:
  "elements b = [] \<Longrightarrow>
   compute_bounds b
     = Inr (b\<lparr>bounds := Some (bounds_of
              (concat (map (\<lambda>w. [(w_x1 w, w_y1 w), (w_x2 w, w_y2 w)]) (wires b))
               @ map (\<lambda>v. (v_x v, v_y v)) (vias b)
               @ map (\<lambda>p. (p_x p, p_y p)) (pads b)
               @ map (\<lambda>s. (s_x s, s_y s)) (smds b)
               @ concat (map poly_vertices (polygons b))))\<rparr>)"
  by (simp add: compute_bounds_def scan_coords_def)

lemmas pass_defs = board_file_def parse_def parse_layers_def parse_libraries_def
  parse_library_def parse_package_def package_shapes_def package_wires_def package_pads_def
  package_smds_def package_circles_def package_rects_def package_polygons_def
  parse_plain_def parse_elements_def parse_signals_def parse_signal_def
  add_wire_from_xml_def add_pad_from_xml_def add_smd_from_xml_def add_polygon_from_xml_def
  get_def find_child_def findall_def empty_board_def compute_bounds_no_elements Let_def

lemma poly_file_polygons:
  "map_sum id (\<lambda>b. map (\<lambda>q. (poly_layer q, poly_net q, poly_fill q, poly_is_outline q))
                       (polygons b)) (parse (Document poly_file))
     = Inr [(20, [], False, True), (1, ''GND'', True, False), (20, ''GND'', False, True)]"
  by (simp add: poly_file_def pass_defs triangle_20 triangle_1 tag_triangle)

lemma lib_file_lists:
  "map_sum id (\<lambda>b. (map_option length (packages b ''PKG''),
                     map_option (\<lambda>shapes. SWire (hd (wires b)) \<in> set shapes) (packages b ''PKG''),
                     length (wires b), length (pads b), length (smds b), polygons b))
      (parse (Document lib_file))
     = Inr (Some 6, Some True, 1, 1, 1, [])"
  by (simp add: lib_file_def lib_package_def pass_defs lib_tags tag_triangle lib_wire_parsed
        lib_pad_parsed
        lib_smd_parsed lib_circle_parsed lib_rect_parsed triangle_21)

section \<open>Polygons and package shapes of a parsed board\<close>

text \<open>
  Claim C8: every polygon in the flat list of a parsed board, from the plain section or
  from a signal, is an outline exactly when its layer is 20, and is filled exactly when
  its net is non-empty and it is not an outline. So a polygon on layer 20 is never filled,
  and a polygon with a net on any other layer always is.
\<close>

theorem polygon_flags:
  assumes "parse src = Inr b" and "q \<in> set (polygons b)"
  shows "(poly_is_outline q \<longleftrightarrow> poly_layer q = 20)
         \<and> (poly_fill q \<longleftrightarrow> poly_net q \<noteq> [] \<and> \<not> poly_is_outline q)
         \<and> (poly_layer q = 20 \<longrightarrow> \<not> poly_fill q)
         \<and> (poly_net q \<noteq> [] \<and> poly_layer q \<noteq> 20 \<longrightarrow> poly_fill q)"
proof -
  from assms(1) obtain root_el drawing brd where src: "src = Document root_el"
    and d: "find_child root_el ''drawing'' = Some drawing"
    and brd: "find_child drawing ''board'' = Some brd"
    by (rule parse_Inr_document)
  from parse_result_inv [OF d brd] assms(1) src
  have "polygons_from (flat_polygon_sources brd) b" by simp
  with assms(2) obtain p net where "polygon_of_xml p net = Some q"
    unfolding polygons_from_def by blast
  from polygon_of_xml_flags(2,3) [OF this] show ?thesis by simp
qed

theorem polygon_flags_witness:
  "\<exists>b. parse (Document poly_file) = Inr b
       \<and> map (\<lambda>q. (poly_layer q, poly_net q, poly_fill q, poly_is_outline q)) (polygons b)
           = [(20, [], False, True), (1, ''GND'', True, False), (20, ''GND'', False, True)]
       \<and> hd (polygons b) \<in> set (polygons b)
       \<and> (poly_is_outline (hd (polygons b)) \<longleftrightarrow> poly_layer (hd (polygons b)) = 20)"
proof -
  from poly_file_polygons obtain b where b: "parse (Document poly_file) = Inr b"
    and ps: "map (\<lambda>q. (poly_layer q, poly_net q, poly_fill q, poly_is_outline q)) (polygons b)
           = [(20, [], False, True), (1, ''GND'', True, False), (20, ''GND'', False, True)]"
    by (cases "parse (Document poly_file)") simp_all
  from ps have "polygons b \<noteq> []" by (cases "polygons b") simp_all
  then have m: "hd (polygons b) \<in> set (polygons b)" by (rule hd_in_set)
  note fl = polygon_flags [OF b m, THEN conjunct1]
  from b ps m fl show ?thesis by (intro exI conjI)
qed

lemma wire_declares_iff: "wire_declares el w \<longleftrightarrow> wire_of_xml el ''package'' = Some w"
  by (cases w) (auto simp: wire_declares_def wire_of_xml_def split: Option.bind_splits)

lemma pad_declares_iff: "pad_declares el p \<longleftrightarrow> pad_of_xml el = Some p"
  by (cases p)
     (auto simp: pad_declares_def pad_of_xml_def shape_rot_of_str_def Let_def
           split: Option.bind_splits)

lemma smd_declares_iff: "smd_declares el s \<longleftrightarrow> smd_of_xml el = Some s"
  by (cases s)
     (auto simp: smd_declares_def smd_of_xml_def shape_rot_of_str_def split: Option.bind_splits)

lemma circle_declares_iff: "circle_declares el c \<longleftrightarrow> add_circle_from_xml el = Some c"
  by (cases c)
     (auto simp: circle_declares_def add_circle_from_xml_def split: Option.bind_splits)

lemma rect_declares_iff: "rect_declares el r \<longleftrightarrow> add_rect_from_xml el = Some r"
  by (cases r)
     (auto simp: rect_declares_def add_rect_from_xml_def shape_rot_of_str_def
           split: Option.bind_splits)

lemma vertices_of_xml_iff:
  "vertices_of_xml vs = Some verts \<longleftrightarrow>
     map (\<lambda>v. (py_float (get v ''x'' ''0''), py_float (get v ''y'' ''0''))) vs
       = map (\<lambda>(x, y). (Some x, Some y)) verts"
proof (induction vs arbitrary: verts)
  case Nil
  show ?case by auto
next
  case (Cons v vs)
  show ?case
  proof (cases verts)
    case Nil
    then show ?thesis by (auto split: Option.bind_splits)
  next
    case (Cons p ps)
    with Cons.IH [of ps] show ?thesis by (cases p) (auto split: Option.bind_splits)
  qed
qed

lemma polygon_declares_iff: "polygon_declares el q \<longleftrightarrow> polygon_of_xml el [] = Some q"
  by (cases q)
     (auto simp: polygon_declares_def polygon_of_xml_def vertices_of_xml_iff [symmetric] Let_def
           split: Option.bind_splits if_splits)

lemma package_wires_fst:
  "fst (package_wires els sb)
     = fst sb @ map SWire (List.map_filter (\<lambda>el. wire_of_xml el ''package'') els)"
proof (induction els arbitrary: sb)
  case Nil
  show ?case by (simp add: package_wires_def List.map_filter_simps)
next
  case (Cons el els)
  from Cons.IH [of "foldl (\<lambda>(shapes, b) w. case add_wire_from_xml w ''package'' b of
                               (None, b') \<Rightarrow> (shapes, b')
                             | (Some w_obj, b') \<Rightarrow> (shapes @ [SWire w_obj], b')) sb [el]"]
  show ?case
    by (cases sb)
       (auto simp: package_wires_def add_wire_from_xml_def List.map_filter_simps
             split: option.splits)
qed

lemma package_pads_fst:
  "fst (package_pads els sb) = fst sb @ map SPad (List.map_filter pad_of_xml els)"
proof (induction els arbitrary: sb)
  case Nil
  show ?case by (simp add: package_pads_def List.map_filter_simps)
next
  case (Cons el els)
  from Cons.IH [of "foldl (\<lambda>(shapes, b) pad. case add_pad_from_xml pad b of
                                 (None, b') \<Rightarrow> (shapes, b')
                               | (Some pad_obj, b') \<Rightarrow> (shapes @ [SPad pad_obj], b')) sb [el]"]
  show ?case
    by (cases sb)
       (auto simp: package_pads_def add_pad_from_xml_def List.map_filter_simps
             split: option.splits)
qed

lemma package_smds_fst:
  "fst (package_smds els sb) = fst sb @ map SSMD (List.map_filter smd_of_xml els)"
proof (induction els arbitrary: sb)
  case Nil
  show ?case by (simp add: package_smds_def List.map_filter_simps)
next
  case (Cons el els)
  from Cons.IH [of "foldl (\<lambda>(shapes, b) smd. case add_smd_from_xml smd b of
                                 (None, b') \<Rightarrow> (shapes, b')
                               | (Some smd_obj, b') \<Rightarrow> (shapes @ [SSMD smd_obj], b')) sb [el]"]
  show ?case
    by (cases sb)
       (auto simp: package_smds_def add_smd_from_xml_def List.map_filter_simps
             split: option.splits)
qed

lemma package_circles_fst:
  "fst (package_circles els sb) = fst sb @ map SCircle (List.map_filter add_circle_from_xml els)"
proof (induction els arbitrary: sb)
  case Nil
  show ?case by (simp add: package_circles_def List.map_filter_simps)
next
  case (Cons el els)
  from Cons.IH [of "foldl (\<lambda>(shapes, b) c. case add_circle_from_xml c of
                               None \<Rightarrow> (shapes, b)
                             | Some c_obj \<Rightarrow> (shapes @ [SCircle c_obj], b)) sb [el]"]
  show ?case
    by (cases sb) (auto simp: package_circles_def List.map_filter_simps split: option.splits)
qed

lemma package_rects_fst:
  "fst (package_rects els sb) = fst sb @ map SRect (List.map_filter add_rect_from_xml els)"
proof (induction els arbitrary: sb)
  case Nil
  show ?case by (simp add: package_rects_def List.map_filter_simps)
next
  case (Cons el els)
  from Cons.IH [of "foldl (\<lambda>(shapes, b) r. case add_rect_from_xml r of
                               None \<Rightarrow> (shapes, b)
                             | Some r_obj \<Rightarrow> (shapes @ [SRect r_obj], b)) sb [el]"]
  show ?case
    by (cases sb) (auto simp: package_rects_def List.map_filter_simps split: option.splits)
qed

lemma package_polygons_fst:
  "fst (package_polygons els sb)
     = fst sb @ map SPolygon (List.map_filter (\<lambda>el. polygon_of_xml el []) els)"
proof (induction els arbitrary: sb)
  case Nil
  show ?case by (simp add: package_polygons_def List.map_filter_simps)
next
  case (Cons el els)
  from Cons.IH [of "foldl (\<lambda>(shapes, b) poly. case add_polygon_from_xml poly '''' True b of
                                  (None, b') \<Rightarrow> (shapes, b')
                                | (Some p_obj, b') \<Rightarrow> (shapes @ [SPolygon p_obj], b')) sb [el]"]
  show ?case
    by (cases sb)
       (auto simp: package_polygons_def add_polygon_from_xml_def List.map_filter_simps
             split: option.splits)
qed

lemma package_shapes_fst: "fst (package_shapes pkg b) = read_shapes pkg"
  by (simp add: package_shapes_def read_shapes_def package_wires_fst package_pads_fst
        package_smds_fst package_circles_fst package_rects_fst package_polygons_fst)

lemma packages_parse_package:
  "packages (parse_package b pkg) = (packages b)(get pkg ''name'' [] \<mapsto> read_shapes pkg)"
proof -
  from package_inv_shapes [of b pkg] have "packages (snd (package_shapes pkg b)) = packages b"
    by (simp add: package_inv_def flat_grows_def)
  then show ?thesis
    by (simp add: parse_package_def split_beta package_shapes_fst)
qed

lemma parse_libraries_fold:
  "parse_libraries brd b = foldl parse_package b (library_packages brd)"
proof (cases "find_child brd ''libraries''")
  case None
  then show ?thesis by (simp add: parse_libraries_def library_packages_def)
next
  case (Some libs)
  have "foldl parse_library b ls
          = foldl parse_package b
              (concat (map (\<lambda>lib. case find_child lib ''packages'' of
                                     None \<Rightarrow> []
                                   | Some pkgs \<Rightarrow> findall pkgs ''package'') ls))" for ls
    by (induction ls arbitrary: b) (simp_all add: parse_library_def split: option.splits)
  with Some show ?thesis by (simp add: parse_libraries_def library_packages_def)
qed

lemma last_package_entry:
  assumes "\<forall>q \<in> set after. get q ''name'' [] \<noteq> get pkg ''name'' []"
  shows "packages (foldl parse_package b (before @ pkg # after)) (get pkg ''name'' [])
           = Some (read_shapes pkg)"
proof -
  let ?P = "\<lambda>b :: Board. packages b (get pkg ''name'' []) = Some (read_shapes pkg)"
  have "?P (parse_package (foldl parse_package b before) pkg)"
    by (simp add: packages_parse_package)
  then have "?P (foldl parse_package (parse_package (foldl parse_package b before) pkg) after)"
  proof (rule foldl_preserves [where P = ?P])
    fix b' :: Board and q assume q: "q \<in> set after" and p: "?P b'"
    from assms q have "get pkg ''name'' [] \<noteq> get q ''name'' []" by (simp add: not_sym)
    with p show "?P (parse_package b' q)" by (simp add: packages_parse_package)
  qed
  then show ?thesis by simp
qed

lemma in_set_map_filter:
  "y \<in> set (List.map_filter f xs) \<longleftrightarrow> (\<exists>x \<in> set xs. f x = Some y)"
  by (induction xs) (auto simp: List.map_filter_simps split: option.splits)

lemma read_shapes_members:
  "SWire w \<in> set (read_shapes pkg) \<longleftrightarrow> (\<exists>el \<in> set (findall pkg ''wire''). wire_declares el w)"
  "SPad p \<in> set (read_shapes pkg) \<longleftrightarrow> (\<exists>el \<in> set (findall pkg ''pad''). pad_declares el p)"
  "SSMD s \<in> set (read_shapes pkg) \<longleftrightarrow> (\<exists>el \<in> set (findall pkg ''smd''). smd_declares el s)"
  "SCircle c \<in> set (read_shapes pkg)
     \<longleftrightarrow> (\<exists>el \<in> set (findall pkg ''circle''). circle_declares el c)"
  "SRect r \<in> set (read_shapes pkg)
     \<longleftrightarrow> (\<exists>el \<in> set (findall pkg ''rectangle''). rect_declares el r)"
  "SPolygon q \<in> set (read_shapes pkg)
     \<longleftrightarrow> (\<exists>el \<in> set (findall pkg ''polygon''). polygon_declares el q)"
  by (auto simp: read_shapes_def image_iff in_set_map_filter wire_declares_iff pad_declares_iff
        smd_declares_iff circle_declares_iff rect_declares_iff polygon_declares_iff)

lemma same_name_pads:
  "pad_of_xml (leaf ''pad'' [(''name'', ''A''), (''x'', ''1''), (''y'', ''0'')])
     = Some (named_pad ''A'' 1)"
  "pad_of_xml (leaf ''pad'' [(''name'', ''B''), (''x'', ''2''), (''y'', ''0'')])
     = Some (named_pad ''B'' 2)"
  "el_tag (leaf ''pad'' attrs) = ''pad''"
  by (simp_all add: pad_of_xml_def shape_rot_of_str_def named_pad_def leaf_def xml_defs py_defs)

text \<open>
  Claim C10 says that every pad declared inside a library package is in the flat list and
  also in the package's shape list. The package table is keyed by the package name alone:
  when two libraries each declare a package \<open>P\<close>, the first with the pad \<open>A\<close> and the
  second with the pad \<open>B\<close>, both pads are in the flat list, and the table has one entry
  \<open>P\<close>, the shape list of the second package, so that \<open>A\<close> is in no shape list.
\<close>

theorem same_name_package_counterexample:
  "parse (Document same_name_file)
     = Inr (empty_board\<lparr>pads := [named_pad ''A'' 1, named_pad ''B'' 2],
                          packages := [''P'' \<mapsto> [SPad (named_pad ''B'' 2)]],
                          bounds := Some (1, 0, 2, 0)\<rparr>)
   \<and> SPad (named_pad ''A'' 1) \<notin> set [SPad (named_pad ''B'' 2)]"
  by (simp add: same_name_file_def library_of_def pass_defs same_name_pads
        bounds_of_def fold_min_def fold_max_def named_pad_def)

lemma bounds_of_contains:
  assumes "p \<in> set pts"
  shows "fst (bounds_of pts) \<le> fst p \<and> fst p \<le> fst (snd (snd (bounds_of pts)))
         \<and> fst (snd (bounds_of pts)) \<le> snd p \<and> snd p \<le> snd (snd (snd (bounds_of pts)))"
proof -
  from assms have ne: "pts \<noteq> []" by auto
  have "fst p \<in> fst ` set pts" "snd p \<in> snd ` set pts" using assms by simp_all
  then show ?thesis
    unfolding bounds_of_nonempty [OF ne] by (simp add: Min_le Max_ge)
qed

lemma scanned_in_bounds:
  assumes "compute_bounds b0 = Inr b"
  shows "w \<in> set (wires b) \<Longrightarrow> in_bounds b (w_x1 w, w_y1 w) \<and> in_bounds b (w_x2 w, w_y2 w)"
    and "p \<in> set (pads b) \<Longrightarrow> in_bounds b (p_x p, p_y p)"
    and "s \<in> set (smds b) \<Longrightarrow> in_bounds b (s_x s, s_y s)"
proof -
  from assms obtain pts where sc: "scan_coords b0 = Inr pts"
    and b: "b = b0\<lparr>bounds := Some (bounds_of pts)\<rparr>"
    by (auto simp: compute_bounds_def split: sum.splits)
  from sc obtain ecs where pts:
    "pts = concat (map (\<lambda>w. [(w_x1 w, w_y1 w), (w_x2 w, w_y2 w)]) (wires b0))
           @ map (\<lambda>v. (v_x v, v_y v)) (vias b0)
           @ map (\<lambda>p. (p_x p, p_y p)) (pads b0)
           @ map (\<lambda>s. (s_x s, s_y s)) (smds b0)
           @ ecs
           @ concat (map poly_vertices (polygons b0))"
    by (auto simp: scan_coords_def split: sum.splits)
  have ib: "q \<in> set pts \<Longrightarrow> in_bounds b q" for q
    using bounds_of_contains [of q pts] unfolding b in_bounds_def
    by (cases "bounds_of pts") simp
  {
    assume "w \<in> set (wires b)"
    then have "w \<in> set (wires b0)" by (simp add: b)
    then have "(w_x1 w, w_y1 w) \<in> set pts" "(w_x2 w, w_y2 w) \<in> set pts"
      unfolding pts by auto
    then show "in_bounds b (w_x1 w, w_y1 w) \<and> in_bounds b (w_x2 w, w_y2 w)"
      by (simp add: ib)
  }
  {
    assume "p \<in> set (pads b)"
    then have "p \<in> set (pads b0)" by (simp add: b)
    then have "(p_x p, p_y p) \<in> set pts" unfolding pts by auto
    then show "in_bounds b (p_x p, p_y p)" by (rule ib)
  }
  {
    assume "s \<in> set (smds b)"
    then have "s \<in> set (smds b0)" by (simp add: b)
    then have "(s_x s, s_y s) \<in> set pts" unfolding pts by auto
    then show "in_bounds b (s_x s, s_y s)" by (rule ib)
  }
qed

lemma parse_packages:
  assumes "find_child root_el ''drawing'' = Some drawing"
    and "find_child drawing ''board'' = Some brd"
    and "parse (Document root_el) = Inr b"
  obtains b5 where "compute_bounds b5 = Inr b"
    and "packages b
           = packages (foldl parse_package (parse_layers drawing empty_board)
                         (library_packages brd))"
proof -
  define b1 where "b1 = parse_layers drawing empty_board"
  define b2 where "b2 = parse_libraries brd b1"
  define b3 where "b3 = parse_plain brd b2"
  define b4 where "b4 = parse_elements brd b3"
  define b5 where "b5 = parse_signals brd b4"
  from assms have cb: "compute_bounds b5 = Inr b"
    by (simp add: parse_def b1_def b2_def b3_def b4_def b5_def)
  have "packages b3 = packages b2" unfolding b3_def
    using flat_grows_parse_plain [of b2 brd] by (simp add: flat_grows_def)
  moreover have "packages b4 = packages b3" unfolding b4_def
    using flat_grows_parse_elements [of b3 brd] by (simp add: flat_grows_def)
  moreover have "packages b5 = packages b4" unfolding b5_def
    using flat_grows_parse_signals [of b4 brd] by (simp add: flat_grows_def)
  moreover have "packages b = packages b5"
    using flat_grows_compute_bounds [OF cb] by (simp add: flat_grows_def)
  ultimately have "packages b = packages b2" by simp
  then have "packages b = packages (foldl parse_package b1 (library_packages brd))"
    by (simp add: b2_def parse_libraries_fold)
  with cb show ?thesis unfolding b1_def by (rule that)
qed

text \<open>
  Claim C10, amended: after a successful parse, take any package element of any library.
  Every wire, pad and smd element of it whose attributes can be read is in the board's
  flat list as the record that the attributes declare, with the package-local coordinates
  of the attributes and the kind \<open>package\<close> for a wire, and these coordinates lie within
  the stored bounds. If no later package element of the libraries has the same name, the
  package table holds under that name the shape list of the package, and this list holds
  exactly the declared records of the readable wire, pad, smd, circle, rectangle and
  polygon elements of the package; a package with the name of a later one is replaced in
  the table and keeps its wires, pads and smds in the flat lists. The board has no flat
  list for circles or rectangles, every polygon of the flat list comes from a polygon
  element of the plain section or of a signal, and the library pass leaves the flat
  polygon list as it was.
\<close>

theorem package_shapes_stored:
  assumes "find_child root_el ''drawing'' = Some drawing"
    and "find_child drawing ''board'' = Some brd"
    and "parse (Document root_el) = Inr b"
    and "library_packages brd = before @ pkg # after"
  shows "(\<forall>el \<in> set (findall pkg ''wire''). \<forall>w. wire_declares el w \<longrightarrow>
            w \<in> set (wires b) \<and> in_bounds b (w_x1 w, w_y1 w) \<and> in_bounds b (w_x2 w, w_y2 w))
         \<and> (\<forall>el \<in> set (findall pkg ''pad''). \<forall>p. pad_declares el p \<longrightarrow>
            p \<in> set (pads b) \<and> in_bounds b (p_x p, p_y p))
         \<and> (\<forall>el \<in> set (findall pkg ''smd''). \<forall>s. smd_declares el s \<longrightarrow>
            s \<in> set (smds b) \<and> in_bounds b (s_x s, s_y s))
         \<and> ((\<forall>q \<in> set after. get q ''name'' [] \<noteq> get pkg ''name'' []) \<longrightarrow>
            (\<exists>shapes. packages b (get pkg ''name'' []) = Some shapes
               \<and> (\<forall>w. SWire w \<in> set shapes
                      \<longleftrightarrow> (\<exists>el \<in> set (findall pkg ''wire''). wire_declares el w))
               \<and> (\<forall>p. SPad p \<in> set shapes
                      \<longleftrightarrow> (\<exists>el \<in> set (findall pkg ''pad''). pad_declares el p))
               \<and> (\<forall>s. SSMD s \<in> set shapes
                      \<longleftrightarrow> (\<exists>el \<in> set (findall pkg ''smd''). smd_declares el s))
               \<and> (\<forall>c. SCircle c \<in> set shapes
                      \<longleftrightarrow> (\<exists>el \<in> set (findall pkg ''circle''). circle_declares el c))
               \<and> (\<forall>r. SRect r \<in> set shapes
                      \<longleftrightarrow> (\<exists>el \<in> set (findall pkg ''rectangle''). rect_declares el r))
               \<and> (\<forall>q. SPolygon q \<in> set shapes
                      \<longleftrightarrow> (\<exists>el \<in> set (findall pkg ''polygon''). polygon_declares el q))))
         \<and> (\<forall>q \<in> set (polygons b).
               \<exists>(p, net) \<in> flat_polygon_sources brd. polygon_of_xml p net = Some q)
         \<and> (\<forall>b0. polygons (parse_libraries brd b0) = polygons b0)"
proof -
  from assms(4) have pkg: "pkg \<in> set (library_packages brd)" by simp
  note df = parse_declared [OF assms(1-3) pkg, unfolded declared_flat_def]
  from parse_packages [OF assms(1-3)] obtain b5 where cb: "compute_bounds b5 = Inr b"
    and pk: "packages b = packages (foldl parse_package (parse_layers drawing empty_board)
                                      (library_packages brd))"
    by blast
  have w: "\<forall>el \<in> set (findall pkg ''wire''). \<forall>w. wire_declares el w \<longrightarrow>
            w \<in> set (wires b) \<and> in_bounds b (w_x1 w, w_y1 w) \<and> in_bounds b (w_x2 w, w_y2 w)"
  proof (intro ballI allI impI)
    fix el w assume "el \<in> set (findall pkg ''wire'')" "wire_declares el w"
    with df have m: "w \<in> set (wires b)" by (simp add: wire_declares_iff)
    with scanned_in_bounds(1) [OF cb m]
    show "w \<in> set (wires b) \<and> in_bounds b (w_x1 w, w_y1 w) \<and> in_bounds b (w_x2 w, w_y2 w)"
      by simp
  qed
  have p: "\<forall>el \<in> set (findall pkg ''pad''). \<forall>p. pad_declares el p \<longrightarrow>
            p \<in> set (pads b) \<and> in_bounds b (p_x p, p_y p)"
  proof (intro ballI allI impI)
    fix el p assume "el \<in> set (findall pkg ''pad'')" "pad_declares el p"
    with df have m: "p \<in> set (pads b)" by (simp add: pad_declares_iff)
    with scanned_in_bounds(2) [OF cb m]
    show "p \<in> set (pads b) \<and> in_bounds b (p_x p, p_y p)" by simp
  qed
  have s: "\<forall>el \<in> set (findall pkg ''smd''). \<forall>s. smd_declares el s \<longrightarrow>
            s \<in> set (smds b) \<and> in_bounds b (s_x s, s_y s)"
  proof (intro ballI allI impI)
    fix el s assume "el \<in> set (findall pkg ''smd'')" "smd_declares el s"
    with df have m: "s \<in> set (smds b)" by (simp add: smd_declares_iff)
    with scanned_in_bounds(3) [OF cb m]
    show "s \<in> set (smds b) \<and> in_bounds b (s_x s, s_y s)" by simp
  qed
  have t: "(\<forall>q \<in> set after. get q ''name'' [] \<noteq> get pkg ''name'' []) \<longrightarrow>
            (\<exists>shapes. packages b (get pkg ''name'' []) = Some shapes
               \<and> (\<forall>w. SWire w \<in> set shapes
                      \<longleftrightarrow> (\<exists>el \<in> set (findall pkg ''wire''). wire_declares el w))
               \<and> (\<forall>p. SPad p \<in> set shapes
                      \<longleftrightarrow> (\<exists>el \<in> set (findall pkg ''pad''). pad_declares el p))
               \<and> (\<forall>s. SSMD s \<in> set shapes
                      \<longleftrightarrow> (\<exists>el \<in> set (findall pkg ''smd''). smd_declares el s))
               \<and> (\<forall>c. SCircle c \<in> set shapes
                      \<longleftrightarrow> (\<exists>el \<in> set (findall pkg ''circle''). circle_declares el c))
               \<and> (\<forall>r. SRect r \<in> set shapes
                      \<longleftrightarrow> (\<exists>el \<in> set (findall pkg ''rectangle''). rect_declares el r))
               \<and> (\<forall>q. SPolygon q \<in> set shapes
                      \<longleftrightarrow> (\<exists>el \<in> set (findall pkg ''polygon''). polygon_declares el q)))"
  proof
    assume last: "\<forall>q \<in> set after. get q ''name'' [] \<noteq> get pkg ''name'' []"
    have e: "packages b (get pkg ''name'' []) = Some (read_shapes pkg)"
      unfolding pk assms(4) by (rule last_package_entry [OF last])
    show "\<exists>shapes. packages b (get pkg ''name'' []) = Some shapes
               \<and> (\<forall>w. SWire w \<in> set shapes
                      \<longleftrightarrow> (\<exists>el \<in> set (findall pkg ''wire''). wire_declares el w))
               \<and> (\<forall>p. SPad p \<in> set shapes
                      \<longleftrightarrow> (\<exists>el \<in> set (findall pkg ''pad''). pad_declares el p))
               \<and> (\<forall>s. SSMD s \<in> set shapes
                      \<longleftrightarrow> (\<exists>el \<in> set (findall pkg ''smd''). smd_declares el s))
               \<and> (\<forall>c. SCircle c \<in> set shapes
                      \<longleftrightarrow> (\<exists>el \<in> set (findall pkg ''circle''). circle_declares el c))
               \<and> (\<forall>r. SRect r \<in> set shapes
                      \<longleftrightarrow> (\<exists>el \<in> set (findall pkg ''rectangle''). rect_declares el r))
               \<and> (\<forall>q. SPolygon q \<in> set shapes
                      \<longleftrightarrow> (\<exists>el \<in> set (findall pkg ''polygon''). polygon_declares el q))"
      by (rule exI [of _ "read_shapes pkg"]) (simp only: e read_shapes_members simp_thms)
  qed
  from parse_result_inv [OF assms(1-3)]
  have "polygons_from (flat_polygon_sources brd) b" by simp
  then have g: "\<forall>q \<in> set (polygons b).
                  \<exists>(p, net) \<in> flat_polygon_sources brd. polygon_of_xml p net = Some q"
    by (simp add: polygons_from_def)
  have l: "\<forall>b0. polygons (parse_libraries brd b0) = polygons b0"
    by (simp add: polygons_parse_libraries)
  from w p s t g l show ?thesis by (intro conjI)
qed

lemma lib_file_board:
  "find_child lib_file ''drawing'' = Some (hd (el_children lib_file))"
  "find_child (hd (el_children lib_file)) ''board''
     = Some (hd (el_children (hd (el_children lib_file))))"
  by (simp_all add: lib_file_def board_file_def find_child_def)

lemma lib_package_parts:
  "el_tag lib_package = ''package''" "get lib_package ''name'' [] = ''PKG''"
  "findall lib_package ''wire'' = [lib_wire]" "findall lib_package ''circle'' = [lib_circle]"
  by (simp_all add: lib_package_def get_def findall_def lib_tags tag_triangle)

lemma lib_file_packages:
  "library_packages (hd (el_children (hd (el_children lib_file)))) = [] @ lib_package # []"
  by (simp add: library_packages_def lib_file_def board_file_def find_child_def findall_def
        lib_package_parts)

theorem package_shapes_stored_witness:
  "\<exists>b shapes.
      parse (Document lib_file) = Inr b
      \<and> library_packages (hd (el_children (hd (el_children lib_file)))) = [] @ lib_package # []
      \<and> lib_wire \<in> set (findall lib_package ''wire'')
      \<and> wire_declares lib_wire
           \<lparr>w_x1 = 1, w_y1 = 1, w_x2 = 2, w_y2 = 1, w_width = 1 / 10, w_layer = 21,
            w_kind = ''package'', w_net = []\<rparr>
      \<and> \<lparr>w_x1 = 1, w_y1 = 1, w_x2 = 2, w_y2 = 1, w_width = 1 / 10, w_layer = 21,
          w_kind = ''package'', w_net = []\<rparr> \<in> set (wires b)
      \<and> in_bounds b (1, 1) \<and> in_bounds b (2, 1)
      \<and> packages b ''PKG'' = Some shapes
      \<and> SWire \<lparr>w_x1 = 1, w_y1 = 1, w_x2 = 2, w_y2 = 1, w_width = 1 / 10, w_layer = 21,
                w_kind = ''package'', w_net = []\<rparr> \<in> set shapes
      \<and> SCircle \<lparr>c_x = 0, c_y = 0, c_radius = 1, c_width = 1 / 10, c_layer = 21\<rparr> \<in> set shapes"
proof -
  let ?W = "\<lparr>w_x1 = 1, w_y1 = 1, w_x2 = 2, w_y2 = 1, w_width = 1 / 10, w_layer = 21,
             w_kind = ''package'', w_net = []\<rparr>"
  let ?C = "\<lparr>c_x = 0, c_y = 0, c_radius = 1, c_width = 1 / 10, c_layer = 21\<rparr>"
  from lib_file_lists obtain b where b: "parse (Document lib_file) = Inr b"
    by (cases "parse (Document lib_file)") simp_all
  note t = package_shapes_stored [OF lib_file_board b lib_file_packages]
  have mw: "lib_wire \<in> set (findall lib_package ''wire'')" by (simp add: lib_package_parts)
  have dw: "wire_declares lib_wire ?W" by (simp add: wire_declares_iff lib_wire_parsed)
  have dc: "circle_declares lib_circle ?C" by (simp add: circle_declares_iff lib_circle_parsed)
  from t [THEN conjunct1, rule_format, OF mw dw]
  have f: "?W \<in> set (wires b)" "in_bounds b (1, 1)" "in_bounds b (2, 1)" by simp_all
  from t [THEN conjunct2, THEN conjunct2, THEN conjunct2, THEN conjunct1]
  obtain shapes where e: "packages b ''PKG'' = Some shapes"
    and sw: "\<forall>w. SWire w \<in> set shapes
               \<longleftrightarrow> (\<exists>el \<in> set (findall lib_package ''wire''). wire_declares el w)"
    and sc: "\<forall>c. SCircle c \<in> set shapes
               \<longleftrightarrow> (\<exists>el \<in> set (findall lib_package ''circle''). circle_declares el c)"
    by (auto simp: lib_package_parts)
  from sw dw have w: "SWire ?W \<in> set shapes" by (simp add: lib_package_parts)
  from sc dc have c: "SCircle ?C \<in> set shapes" by (simp add: lib_package_parts)
  from b lib_file_packages mw dw f e w c show ?thesis by (intro exI conjI)
qed

end
